theory Spec2Isabelle
  imports Main "HOL-Library.Sublist"
begin

section \<open>Python strings\<close>

text \<open>
  A Python \<open>str\<close> is modelled as a \<open>string\<close> whose characters are the code points
  0..255 (Latin-1). On this range \<open>str.lower\<close> maps one code point to one code point,
  and the classes below are those of CPython: \<open>[a-zA-Z]\<close> is the ASCII letters, the
  regular expression class \<open>\w\<close> on a \<open>str\<close> pattern is \<open>str.isalnum\<close> or the
  underscore, and \<open>str.strip\<close> removes the characters for which \<open>str.isspace\<close> holds.
\<close>

definition code_point :: "char \<Rightarrow> nat" where
  "code_point c = of_char c"

definition is_letter :: "char \<Rightarrow> bool" where
  "is_letter c = (let n = code_point c in (65 \<le> n \<and> n \<le> 90) \<or> (97 \<le> n \<and> n \<le> 122))"

definition is_lower_letter :: "char \<Rightarrow> bool" where
  "is_lower_letter c = (let n = code_point c in 97 \<le> n \<and> n \<le> 122)"

definition is_word_char :: "char \<Rightarrow> bool" where
  "is_word_char c = (let n = code_point c in
     (48 \<le> n \<and> n \<le> 57) \<or> (65 \<le> n \<and> n \<le> 90) \<or> n = 95 \<or> (97 \<le> n \<and> n \<le> 122) \<or>
     n = 170 \<or> n = 178 \<or> n = 179 \<or> n = 181 \<or> n = 185 \<or> n = 186 \<or>
     (188 \<le> n \<and> n \<le> 190) \<or> (192 \<le> n \<and> n \<le> 214) \<or> (216 \<le> n \<and> n \<le> 246) \<or>
     (248 \<le> n \<and> n \<le> 255))"

definition is_space :: "char \<Rightarrow> bool" where
  "is_space c = (let n = code_point c in
     (9 \<le> n \<and> n \<le> 13) \<or> (28 \<le> n \<and> n \<le> 32) \<or> n = 133 \<or> n = 160)"

definition lower_char :: "char \<Rightarrow> char" where
  "lower_char c = (let n = code_point c in
     if (65 \<le> n \<and> n \<le> 90) \<or> (192 \<le> n \<and> n \<le> 222 \<and> n \<noteq> 215)
     then char_of (n + 32) else c)"

definition lower :: "string \<Rightarrow> string" where
  "lower s = map lower_char s"

definition strip :: "string \<Rightarrow> string" where
  "strip s = rev (dropWhile is_space (rev (dropWhile is_space s)))"

section \<open>Keyword extraction\<close>

text \<open>
  \<open>re.findall(r'\b[a-zA-Z]{3,}\b', s)\<close>, scanning from the left. The first argument
  says whether the character before the current position is a word character, which
  decides the word boundary \<open>\b\<close> at the start of a match. The quantifier is greedy;
  giving characters back never helps, because the position reached then lies between
  two letters and is no word boundary. After a match the scan resumes behind it.
\<close>

definition boundary_after :: "string \<Rightarrow> bool" where
  "boundary_after rest = (case rest of [] \<Rightarrow> True | d # _ \<Rightarrow> \<not> is_word_char d)"

function findall :: "bool \<Rightarrow> string \<Rightarrow> string list" where
  "findall prev [] = []"
| "findall prev (c # cs) =
     (if \<not> prev \<and> is_letter c \<and> 2 \<le> length (takeWhile is_letter cs)
         \<and> boundary_after (dropWhile is_letter cs)
      then (c # takeWhile is_letter cs) # findall True (dropWhile is_letter cs)
      else findall (is_word_char c) cs)"
  by pat_completeness auto
termination
  by (relation "measure (\<lambda>(p, s). length s)")
     (auto simp: length_dropWhile_le less_Suc_eq_le)

definition stop_words :: "string list" where
  "stop_words = [''the'', ''and'', ''or'', ''but'', ''in'', ''on'', ''at'', ''to'', ''for'',
                 ''of'', ''with'', ''by'', ''a'', ''an'']"

text \<open>
  \<open>list(set(keywords))\<close> lists the distinct keywords in the iteration order of a Python
  set, which depends on the string hashes of the running interpreter. That order is the
  parameter \<open>set_order\<close>: a function from the list the set is built from to the list of
  its elements. \<open>set_iteration\<close> says what every interpreter guarantees of it.
\<close>

definition set_iteration :: "(string list \<Rightarrow> string list) \<Rightarrow> bool" where
  "set_iteration set_order = (\<forall>xs. distinct (set_order xs) \<and> set (set_order xs) = set xs)"

definition extract_keywords :: "(string list \<Rightarrow> string list) \<Rightarrow> string \<Rightarrow> string list" where
  "extract_keywords set_order text =
     (let words = findall False (lower text);
          keywords = filter (\<lambda>word. word \<notin> set stop_words) words
      in take 20 (set_order keywords))"

text \<open>The value of the local variable \<open>keywords\<close>: the candidates before the set is built.\<close>

definition candidate_keywords :: "string \<Rightarrow> string list" where
  "candidate_keywords text =
     filter (\<lambda>word. word \<notin> set stop_words) (findall False (lower text))"

text \<open>
  \<open>json.dumps\<close> of a list of strings. Keywords consist of the letters a..z only, so no
  character of them is escaped.
\<close>

fun join :: "string \<Rightarrow> string list \<Rightarrow> string" where
  "join sep [] = []"
| "join sep [x] = x"
| "join sep (x # y # ys) = x @ sep @ join sep (y # ys)"

definition json_dumps :: "string list \<Rightarrow> string" where
  "json_dumps ks = ''['' @ join '', '' (map (\<lambda>k. [CHR 0x22] @ k @ [CHR 0x22]) ks) @ '']''"

section \<open>Data model\<close>

text \<open>
  Exceptions are values. \<open>requests.RequestException\<close> and its subclasses (the HTTP error of
  \<open>raise_for_status\<close> among them) are told apart from every other \<open>Exception\<close>, because
  the handlers of the source tell them apart. The string is \<open>str(e)\<close>.
\<close>

datatype exn = RequestException string | OtherException string

fun str_exn :: "exn \<Rightarrow> string" where
  "str_exn (RequestException m) = m"
| "str_exn (OtherException m) = m"

text \<open>
  One \<open>div.standard-item\<close> of a result page, as far as \<open>extract_standard_data\<close> reads it:
  the text of the first \<open>span.standard-id\<close>, \<open>h3.standard-title\<close> and
  \<open>div.standard-description\<close> (\<open>None\<close> when \<open>find\<close> returns \<open>None\<close>), and the first
  \<open>a\<close> with its \<open>href\<close> attribute (\<open>Some None\<close>: an anchor that has no \<open>href\<close>).
\<close>

record element =
  el_standard_id :: "string option"
  el_title :: "string option"
  el_description :: "string option"
  el_anchor :: "string option option"

text \<open>The dictionary that \<open>extract_standard_data\<close> returns.\<close>

record standard =
  standard_id :: string
  subject :: string
  grade :: string
  title :: string
  description :: string
  keywords_json :: string
  url :: "string option"

text \<open>A row of the table \<open>standards\<close>; \<open>None\<close> is SQL \<open>NULL\<close>.\<close>

record row =
  row_id :: nat
  row_standard_id :: "string option"
  row_state :: "string option"
  row_subject :: "string option"
  row_grade :: "string option"
  row_domain :: "string option"
  row_cluster :: "string option"
  row_title :: "string option"
  row_description :: "string option"
  row_clarifications :: "string option"
  row_keywords :: "string option"
  row_url :: "string option"
  row_created_at :: nat

text \<open>A row of the table \<open>scraping_log\<close>.\<close>

record log_row =
  log_id :: nat
  log_subject :: string
  log_grade :: string
  log_status :: string
  log_records_collected :: nat
  log_timestamp :: nat
  log_notes :: string

datatype request = Search_page | Unit_page string string | CFDocuments | CFItems string

datatype response = Raises exn | Page "element list"

datatype statement =
    Create_standards
  | Create_scraping_log
  | Insert_or_replace standard
  | Insert_log string string string nat string

text \<open>What the program prints, one constructor for each \<open>print\<close> of the source.\<close>

datatype message =
    Setting_up_database
  | Getting_available
  | Error_fetching_subjects string
  | Planning nat nat
  | Scraping string string
  | Error_scraping string string string
  | Error_extracting string
  | Error_saving string string
  | Collected nat
  | No_standards_found
  | Error_in_unit string
  | Collection_complete nat
  | API_Error string

datatype event = Requested request | Slept nat | Printed message

text \<open>
  The world outside the collector: the two tables of \<open>florida_standards.db\<close> with their
  \<open>AUTOINCREMENT\<close> counters, the time (a fresh row's \<open>CURRENT_TIMESTAMP\<close>), the number of
  HTTP requests and of SQL statements issued so far, and the trace of what the program
  did. The database holds both tables from the start, empty in a new file, so
  \<open>CREATE TABLE IF NOT EXISTS\<close> leaves it as it is. Only \<open>time.sleep\<close> advances the clock.
\<close>

record world =
  standards_table :: "row list"
  standards_seq :: nat
  scraping_log :: "log_row list"
  scraping_log_seq :: nat
  clock :: nat
  n_requests :: nat
  n_statements :: nat
  trace :: "event list"

text \<open>
  The environment answers what the program cannot decide: what the n-th HTTP request
  yields (the steps \<open>session.get\<close>, \<open>raise_for_status\<close>, \<open>BeautifulSoup\<close> and \<open>find_all\<close>
  either raise or give the item elements), whether the n-th \<open>cursor.execute\<close> raises (with
  which message), what \<open>urljoin\<close> computes, and the interpreter's set iteration order.
  \<open>sqlite3.connect\<close>, \<open>commit\<close> and \<open>close\<close> do not raise in this model.
\<close>

record env =
  http_get :: "nat \<Rightarrow> request \<Rightarrow> response"
  sql_fault :: "nat \<Rightarrow> statement \<Rightarrow> string option"
  urljoin :: "string \<Rightarrow> string \<Rightarrow> exn + string"
  set_order :: "string list \<Rightarrow> string list"

text \<open>The attributes that \<open>CPALMSDataCollector.__init__\<close> sets.\<close>

record collector =
  base_url :: string
  search_url :: string
  request_delay :: nat

definition new_collector :: collector where
  "new_collector = \<lparr>base_url = ''https://www.cpalms.org'',
                     search_url = ''https://www.cpalms.org/search/Standard'',
                     request_delay = 2\<rparr>"

definition print :: "message \<Rightarrow> world \<Rightarrow> world" where
  "print m w = w\<lparr>trace := trace w @ [Printed m]\<rparr>"

definition sleep :: "nat \<Rightarrow> world \<Rightarrow> world" where
  "sleep d w = w\<lparr>clock := clock w + d, trace := trace w @ [Slept d]\<rparr>"

definition send :: "request \<Rightarrow> world \<Rightarrow> world" where
  "send r w = w\<lparr>n_requests := Suc (n_requests w), trace := trace w @ [Requested r]\<rparr>"

definition executed :: "world \<Rightarrow> world" where
  "executed w = w\<lparr>n_statements := Suc (n_statements w)\<rparr>"

section \<open>The store\<close>

text \<open>
  \<open>setup_database\<close>: two \<open>CREATE TABLE IF NOT EXISTS\<close> statements. Neither is guarded, so a
  statement that raises ends the call with that exception.
\<close>

definition setup_database :: "env \<Rightarrow> world \<Rightarrow> (exn + unit) \<times> world" where
  "setup_database e w =
     (case sql_fault e (n_statements w) Create_standards of
        Some m \<Rightarrow> (Inl (OtherException m), executed w)
      | None \<Rightarrow>
          (let w1 = executed w in
           case sql_fault e (n_statements w1) Create_scraping_log of
             Some m \<Rightarrow> (Inl (OtherException m), executed w1)
           | None \<Rightarrow> (Inr (), executed w1)))"

text \<open>
  The row that \<open>INSERT OR REPLACE INTO standards (standard_id, subject, grade, title,
  description, keywords, url) VALUES (?, ?, ?, ?, ?, ?, ?)\<close> writes: the seven values of the
  dictionary, the schema default \<open>'FL'\<close> for \<open>state\<close> and \<open>CURRENT_TIMESTAMP\<close> for
  \<open>created_at\<close>, \<open>NULL\<close> in the columns that have no default, and a fresh \<open>id\<close>.
\<close>

definition new_row :: "standard \<Rightarrow> nat \<Rightarrow> nat \<Rightarrow> row" where
  "new_row s i now =
     \<lparr>row_id = i,
      row_standard_id = Some (standard_id s),
      row_state = Some ''FL'',
      row_subject = Some (subject s),
      row_grade = Some (grade s),
      row_domain = None,
      row_cluster = None,
      row_title = Some (title s),
      row_description = Some (description s),
      row_clarifications = None,
      row_keywords = Some (keywords_json s),
      row_url = url s,
      row_created_at = now\<rparr>"

text \<open>
  The statement when it succeeds: \<open>OR REPLACE\<close> deletes every row that the new row
  conflicts with on the \<open>UNIQUE\<close> column \<open>standard_id\<close>, then the new row is inserted.
\<close>

definition insert_or_replace :: "standard \<Rightarrow> world \<Rightarrow> world" where
  "insert_or_replace s w =
     w\<lparr>standards_table :=
          filter (\<lambda>r. row_standard_id r \<noteq> Some (standard_id s)) (standards_table w)
          @ [new_row s (Suc (standards_seq w)) (clock w)],
       standards_seq := Suc (standards_seq w)\<rparr>"

text \<open>
  The loop of \<open>save_standards_to_db\<close>: a statement that raises is caught for that record,
  reported, and the loop goes on with the next record.
\<close>

fun save_loop :: "env \<Rightarrow> standard list \<Rightarrow> world \<Rightarrow> world" where
  "save_loop e [] w = w"
| "save_loop e (s # ss) w =
     save_loop e ss
       (case sql_fault e (n_statements w) (Insert_or_replace s) of
          None \<Rightarrow> insert_or_replace s (executed w)
        | Some m \<Rightarrow> print (Error_saving (standard_id s) m) (executed w))"

definition save_standards_to_db :: "env \<Rightarrow> standard list \<Rightarrow> world \<Rightarrow> world" where
  "save_standards_to_db e standards w = (if standards = [] then w else save_loop e standards w)"

definition new_log_row :: "string \<Rightarrow> string \<Rightarrow> string \<Rightarrow> nat \<Rightarrow> string \<Rightarrow> nat \<Rightarrow> nat \<Rightarrow> log_row" where
  "new_log_row subj grd status records_collected notes i now =
     \<lparr>log_id = i, log_subject = subj, log_grade = grd, log_status = status,
      log_records_collected = records_collected, log_timestamp = now, log_notes = notes\<rparr>"

definition insert_log :: "string \<Rightarrow> string \<Rightarrow> string \<Rightarrow> nat \<Rightarrow> string \<Rightarrow> world \<Rightarrow> world" where
  "insert_log subj grd status records_collected notes w =
     w\<lparr>scraping_log := scraping_log w
          @ [new_log_row subj grd status records_collected notes (Suc (scraping_log_seq w)) (clock w)],
       scraping_log_seq := Suc (scraping_log_seq w)\<rparr>"

text \<open>\<open>log_scraping_activity\<close> has no handler: a statement that raises ends the call.\<close>

definition log_scraping_activity ::
  "env \<Rightarrow> string \<Rightarrow> string \<Rightarrow> string \<Rightarrow> nat \<Rightarrow> string \<Rightarrow> world \<Rightarrow> (exn + unit) \<times> world" where
  "log_scraping_activity e subj grd status records_collected notes w =
     (case sql_fault e (n_statements w) (Insert_log subj grd status records_collected notes) of
        Some m \<Rightarrow> (Inl (OtherException m), executed w)
      | None \<Rightarrow> (Inr (), insert_log subj grd status records_collected notes (executed w)))"

section \<open>Scraping\<close>

definition known_subjects :: "string list" where
  "known_subjects =
     [''English Language Arts (B.E.S.T.)'', ''Mathematics (B.E.S.T.)'', ''Science'',
      ''Social Studies'', ''Health Education'', ''Physical Education'', ''Visual Art'',
      ''Music'', ''Theatre'', ''Dance'', ''World Languages'',
      ''Computer Science (Starting 2025-2026)'']"

definition known_grades :: "string list" where
  "known_grades = [''K'', ''1'', ''2'', ''3'', ''4'', ''5'']
                   @ [''6'', ''7'', ''8'', ''9'', ''10'', ''11'', ''12'']"

definition get_subjects_and_grades ::
  "env \<Rightarrow> world \<Rightarrow> (exn + string list \<times> string list) \<times> world" where
  "get_subjects_and_grades e w =
     (case http_get e (n_requests w) Search_page of
        Raises (RequestException m) \<Rightarrow>
          (Inr ([], []), print (Error_fetching_subjects m) (send Search_page w))
      | Raises (OtherException m) \<Rightarrow> (Inl (OtherException m), send Search_page w)
      | Page elements \<Rightarrow> (Inr (known_subjects, known_grades), send Search_page w))"

text \<open>
  \<open>extract_standard_data\<close>. With the three sub-elements present, the only steps that can
  raise are the subscript \<open>['href']\<close> of an anchor that has no such attribute (a \<open>KeyError\<close>)
  and \<open>urljoin\<close>; the handler of the function reports either and returns \<open>None\<close>.
\<close>

definition key_error_href :: string where
  "key_error_href = [CHR 0x27] @ ''href'' @ [CHR 0x27]"

definition extract_standard_data ::
  "collector \<Rightarrow> env \<Rightarrow> element \<Rightarrow> string \<Rightarrow> string \<Rightarrow> world \<Rightarrow> standard option \<times> world" where
  "extract_standard_data c e el subj grd w =
     (case (el_standard_id el, el_title el, el_description el) of
        (Some sid, Some ttl, Some descr) \<Rightarrow>
          (let kws = extract_keywords (set_order e) descr in
           case (case el_anchor el of
                   None \<Rightarrow> Inr None
                 | Some None \<Rightarrow> Inl (OtherException key_error_href)
                 | Some (Some href) \<Rightarrow> map_sum id Some (urljoin e (base_url c) href)) of
             Inl x \<Rightarrow> (None, print (Error_extracting (str_exn x)) w)
           | Inr u \<Rightarrow>
               (Some \<lparr>standard_id = strip sid, subject = subj, grade = grd, title = strip ttl,
                      description = strip descr, keywords_json = json_dumps kws, url = u\<rparr>, w))
      | _ \<Rightarrow> (None, w))"

text \<open>
  The loop over the item elements. \<open>extract_standard_data\<close> catches what it raises, so the
  handler around the call in the loop is never entered.
\<close>

fun extract_loop ::
  "collector \<Rightarrow> env \<Rightarrow> string \<Rightarrow> string \<Rightarrow> element list \<Rightarrow> standard list \<Rightarrow> world
   \<Rightarrow> standard list \<times> world" where
  "extract_loop c e subj grd [] standards w = (standards, w)"
| "extract_loop c e subj grd (el # els) standards w =
     (case extract_standard_data c e el subj grd w of
        (Some standard_data, w1) \<Rightarrow> extract_loop c e subj grd els (standards @ [standard_data]) w1
      | (None, w1) \<Rightarrow> extract_loop c e subj grd els standards w1)"

text \<open>
  \<open>scrape_standards_by_subject_grade\<close>. The \<open>time.sleep\<close> is the last statement of the
  \<open>try\<close> block: an exception raised before it skips it. The handler takes request
  exceptions only; any other exception leaves the function.
\<close>

definition scrape_standards_by_subject_grade ::
  "collector \<Rightarrow> env \<Rightarrow> string \<Rightarrow> string \<Rightarrow> world \<Rightarrow> (exn + standard list) \<times> world" where
  "scrape_standards_by_subject_grade c e subj grd w =
     (case http_get e (n_requests w) (Unit_page subj grd) of
        Raises (RequestException m) \<Rightarrow>
          (Inr [], print (Error_scraping subj grd m) (send (Unit_page subj grd) w))
      | Raises (OtherException m) \<Rightarrow> (Inl (OtherException m), send (Unit_page subj grd) w)
      | Page elements \<Rightarrow>
          (case extract_loop c e subj grd elements [] (send (Unit_page subj grd) w) of
             (standards, w1) \<Rightarrow> (Inr standards, sleep (request_delay c) w1)))"

section \<open>The collection run\<close>

text \<open>The handler \<open>except Exception as e\<close> of one unit in \<open>collect_all_standards\<close>.\<close>

definition unit_handler ::
  "env \<Rightarrow> exn \<Rightarrow> string \<Rightarrow> string \<Rightarrow> nat \<Rightarrow> world \<Rightarrow> (exn + nat) \<times> world" where
  "unit_handler e x subj grd total_collected w =
     (case log_scraping_activity e subj grd ''error'' 0 (str_exn x)
             (print (Error_in_unit (str_exn x)) w) of
        (Inl x', w1) \<Rightarrow> (Inl x', w1)
      | (Inr _, w1) \<Rightarrow> (Inr total_collected, w1))"

text \<open>
  The body of the two loops for one (subject, grade) unit; \<open>total_collected\<close> is passed in
  and returned. Both calls of \<open>log_scraping_activity\<close> in the \<open>try\<close> block are covered by
  the handler.
\<close>

definition collect_unit ::
  "collector \<Rightarrow> env \<Rightarrow> string \<Rightarrow> string \<Rightarrow> nat \<Rightarrow> world \<Rightarrow> (exn + nat) \<times> world" where
  "collect_unit c e subj grd total_collected w =
     (case scrape_standards_by_subject_grade c e subj grd (print (Scraping subj grd) w) of
        (Inl x, w1) \<Rightarrow> unit_handler e x subj grd total_collected w1
      | (Inr standards, w1) \<Rightarrow>
          if standards \<noteq> [] then
            (let w2 = save_standards_to_db e standards w1;
                 total_collected' = total_collected + length standards;
                 w3 = print (Collected (length standards)) w2
             in case log_scraping_activity e subj grd ''success'' (length standards) [] w3 of
                  (Inl x, w4) \<Rightarrow> unit_handler e x subj grd total_collected' w4
                | (Inr _, w4) \<Rightarrow> (Inr total_collected', w4))
          else
            (case log_scraping_activity e subj grd ''no_data'' 0 ''No standards found''
                    (print No_standards_found w1) of
               (Inl x, w3) \<Rightarrow> unit_handler e x subj grd total_collected w3
             | (Inr _, w3) \<Rightarrow> (Inr total_collected, w3)))"

fun grades_loop ::
  "collector \<Rightarrow> env \<Rightarrow> string \<Rightarrow> string list \<Rightarrow> nat \<Rightarrow> world \<Rightarrow> (exn + nat) \<times> world" where
  "grades_loop c e subj [] total_collected w = (Inr total_collected, w)"
| "grades_loop c e subj (grd # grds) total_collected w =
     (case collect_unit c e subj grd total_collected w of
        (Inl x, w1) \<Rightarrow> (Inl x, w1)
      | (Inr total_collected', w1) \<Rightarrow> grades_loop c e subj grds total_collected' w1)"

fun subjects_loop ::
  "collector \<Rightarrow> env \<Rightarrow> string list \<Rightarrow> string list \<Rightarrow> nat \<Rightarrow> world \<Rightarrow> (exn + nat) \<times> world" where
  "subjects_loop c e [] grds total_collected w = (Inr total_collected, w)"
| "subjects_loop c e (subj # subjs) grds total_collected w =
     (case grades_loop c e subj grds total_collected w of
        (Inl x, w1) \<Rightarrow> (Inl x, w1)
      | (Inr total_collected', w1) \<Rightarrow> subjects_loop c e subjs grds total_collected' w1)"

text \<open>Python's \<open>x or y\<close> on an optional list: \<open>None\<close> and the empty list are false.\<close>

definition py_or :: "'a list option \<Rightarrow> 'a list \<Rightarrow> 'a list" where
  "py_or x y = (case x of None \<Rightarrow> y | Some [] \<Rightarrow> y | Some (a # as) \<Rightarrow> a # as)"

definition collect_all_standards ::
  "collector \<Rightarrow> env \<Rightarrow> string list option \<Rightarrow> string list option \<Rightarrow> world
   \<Rightarrow> (exn + nat) \<times> world" where
  "collect_all_standards c e focus_subjects focus_grades w =
     (case setup_database e (print Setting_up_database w) of
        (Inl x, w1) \<Rightarrow> (Inl x, w1)
      | (Inr _, w1) \<Rightarrow>
          (case get_subjects_and_grades e (print Getting_available w1) of
             (Inl x, w2) \<Rightarrow> (Inl x, w2)
           | (Inr available, w2) \<Rightarrow>
               (let subjects_to_scrape = py_or focus_subjects (fst available);
                    grades_to_scrape = py_or focus_grades (snd available);
                    w3 = print (Planning (length subjects_to_scrape) (length grades_to_scrape)) w2
                in case subjects_loop c e subjects_to_scrape grades_to_scrape 0 w3 of
                     (Inl x, w4) \<Rightarrow> (Inl x, w4)
                   | (Inr total_collected, w4) \<Rightarrow>
                       (Inr total_collected, print (Collection_complete total_collected) w4))))"

section \<open>Collection through the API\<close>

text \<open>
  The JSON objects of the CASE API, as far as \<open>CPALMSAPICollector\<close> reads them; \<open>None\<close> is
  a key that the object does not have. Values are of the types the code expects.
\<close>

record cf_document =
  doc_title :: "string option"
  doc_identifier :: "string option"

record cf_item =
  humanCodingScheme :: "string option"
  abbreviatedStatement :: "string option"
  fullStatement :: "string option"
  cfDocumentURI_title :: "string option option"
  educationLevel :: "string list option"

text \<open>
  The server: the answer to the request for the document list (\<open>session.get\<close>,
  \<open>raise_for_status\<close> and \<open>json\<close> either raise or give the object's \<open>CFDocuments\<close>), and
  the answer to the n-th request when it asks for the items of a document.
\<close>

record api_env =
  api_documents :: "exn + cf_document list option"
  api_items :: "nat \<Rightarrow> string \<Rightarrow> exn + cf_item list option"

definition get_or :: "'a option \<Rightarrow> 'a \<Rightarrow> 'a" where
  "get_or x d = (case x of None \<Rightarrow> d | Some v \<Rightarrow> v)"

definition extract_subject :: "cf_item \<Rightarrow> string" where
  "extract_subject item =
     takeWhile (\<lambda>ch. ch \<noteq> CHR '' '') (get_or (get_or (cfDocumentURI_title item) None) [])"

definition extract_grade :: "cf_item \<Rightarrow> string" where
  "extract_grade item =
     (case get_or (educationLevel item) [[]] of [] \<Rightarrow> [] | level # _ \<Rightarrow> level)"

text \<open>
  \<open>extract_keywords_from_case\<close> calls \<open>self.extract_keywords\<close>, a method of
  \<open>CPALMSDataCollector\<close> that \<open>CPALMSAPICollector\<close> neither defines nor inherits: the
  attribute lookup raises.
\<close>

definition attribute_error :: string where
  "attribute_error =
     [CHR 0x27] @ ''CPALMSAPICollector'' @ [CHR 0x27] @ '' object has no attribute ''
     @ [CHR 0x27] @ ''extract_keywords'' @ [CHR 0x27]"

definition extract_keywords_from_case :: "cf_item \<Rightarrow> exn + string list" where
  "extract_keywords_from_case item = Inl (OtherException attribute_error)"

fun parse_loop :: "cf_item list \<Rightarrow> standard list \<Rightarrow> exn + standard list" where
  "parse_loop [] standards = Inr standards"
| "parse_loop (item # items) standards =
     (case extract_keywords_from_case item of
        Inl x \<Rightarrow> Inl x
      | Inr kws \<Rightarrow>
          parse_loop items
            (standards @
             [\<lparr>standard_id = get_or (humanCodingScheme item) [],
               subject = extract_subject item,
               grade = extract_grade item,
               title = get_or (abbreviatedStatement item) [],
               description = get_or (fullStatement item) [],
               keywords_json = json_dumps kws,
               url = None\<rparr>]))"

definition parse_case_competencies :: "cf_item list option \<Rightarrow> exn + standard list" where
  "parse_case_competencies competencies = parse_loop (get_or competencies []) []"

definition key_error_identifier :: string where
  "key_error_identifier = [CHR 0x27] @ ''identifier'' @ [CHR 0x27]"

text \<open>The loop over the documents, inside the \<open>try\<close> block: an exception ends it.\<close>

fun documents_loop ::
  "api_env \<Rightarrow> cf_document list \<Rightarrow> standard list \<Rightarrow> world \<Rightarrow> (exn + standard list) \<times> world" where
  "documents_loop a [] standards w = (Inr standards, w)"
| "documents_loop a (doc # docs) standards w =
     (if sublist ''Florida'' (get_or (doc_title doc) []) then
        (case doc_identifier doc of
           None \<Rightarrow> (Inl (OtherException key_error_identifier), w)
         | Some ident \<Rightarrow>
             (case api_items a (n_requests w) ident of
                Inl x \<Rightarrow> (Inl x, send (CFItems ident) w)
              | Inr competencies \<Rightarrow>
                  (case parse_case_competencies competencies of
                     Inl x \<Rightarrow> (Inl x, send (CFItems ident) w)
                   | Inr parsed \<Rightarrow>
                       documents_loop a docs (standards @ parsed) (send (CFItems ident) w))))
      else documents_loop a docs standards w)"

text \<open>
  \<open>get_standards_via_api\<close>: one \<open>try\<close> block around both levels, with one handler for
  request exceptions that reports and returns the empty list.
\<close>

definition get_standards_via_api :: "api_env \<Rightarrow> world \<Rightarrow> (exn + standard list) \<times> world" where
  "get_standards_via_api a w =
     (case (case api_documents a of
              Inl x \<Rightarrow> (Inl x, send CFDocuments w)
            | Inr documents \<Rightarrow> documents_loop a (get_or documents []) [] (send CFDocuments w)) of
        (Inl (RequestException m), w1) \<Rightarrow> (Inr [], print (API_Error m) w1)
      | (Inl (OtherException m), w1) \<Rightarrow> (Inl (OtherException m), w1)
      | (Inr standards, w1) \<Rightarrow> (Inr standards, w1))"

section \<open>Concrete inputs\<close>

text \<open>Two set iteration orders: first insertion first, and the reverse.\<close>

definition insertion_order :: "string list \<Rightarrow> string list" where
  "insertion_order xs = rev (remdups (rev xs))"

definition reversed_order :: "string list \<Rightarrow> string list" where
  "reversed_order xs = remdups (rev xs)"

text \<open>A description with 21 different candidate keywords, and one with three.\<close>

definition long_description :: string where
  "long_description = ''add arc cap cut dot fit map net odd one row set six sum ten two use win yes big zip''"

definition short_description :: string where
  "short_description = ''Compare the fractions and explain''"

text \<open>A new database file at time 0, nothing requested or printed yet.\<close>

definition empty_world :: world where
  "empty_world = \<lparr>standards_table = [], standards_seq = 0, scraping_log = [],
                   scraping_log_seq = 0, clock = 0, n_requests = 0, n_statements = 0,
                   trace = []\<rparr>"

definition simple_urljoin :: "string \<Rightarrow> string \<Rightarrow> exn + string" where
  "simple_urljoin base href = Inr (base @ href)"

text \<open>Every page is empty and no statement raises.\<close>

definition quiet_env :: env where
  "quiet_env = \<lparr>http_get = (\<lambda>n r. Page []), sql_fault = (\<lambda>n s. None),
                 urljoin = simple_urljoin, set_order = insertion_order\<rparr>"

text \<open>Every request for a unit page times out.\<close>

definition timeout_response :: "nat \<Rightarrow> request \<Rightarrow> response" where
  "timeout_response n r =
     (case r of Unit_page subj grd \<Rightarrow> Raises (RequestException ''timed out'') | _ \<Rightarrow> Page [])"

definition timeout_env :: env where
  "timeout_env = quiet_env\<lparr>http_get := timeout_response\<rparr>"



text \<open>
  The request for grade 3 times out, the page of grade 4 fails to parse, every other unit
  page has one complete item.
\<close>

definition mixed_response :: "nat \<Rightarrow> request \<Rightarrow> response" where
  "mixed_response n r =
     (case r of
        Unit_page subj grd \<Rightarrow>
          if grd = ''3'' then Raises (RequestException ''timed out'')
          else if grd = ''4'' then Raises (OtherException ''bad markup'')
          else Page [\<lparr>el_standard_id = Some ''MA.5.NSO.1.1'', el_title = Some ''Place value'',
                       el_description = Some ''Read and write numbers'', el_anchor = None\<rparr>]
      | _ \<Rightarrow> Page [])"

definition mixed_env :: env where
  "mixed_env = quiet_env\<lparr>http_get := mixed_response\<rparr>"

text \<open>The insert of a log row raises unless the row has the status \<open>error\<close>.\<close>

definition locked_unless_error :: "nat \<Rightarrow> statement \<Rightarrow> string option" where
  "locked_unless_error n s =
     (case s of
        Insert_log subj grd status k notes \<Rightarrow>
          if status = ''error'' then None else Some ''database is locked''
      | _ \<Rightarrow> None)"

definition locked_log_env :: env where
  "locked_log_env = quiet_env\<lparr>sql_fault := locked_unless_error\<rparr>"

text \<open>Every insert of a log row raises.\<close>

definition locked_log :: "nat \<Rightarrow> statement \<Rightarrow> string option" where
  "locked_log n s =
     (case s of Insert_log subj grd status k notes \<Rightarrow> Some ''database is locked'' | _ \<Rightarrow> None)"

definition dead_log_env :: env where
  "dead_log_env = quiet_env\<lparr>sql_fault := locked_log\<rparr>"

text \<open>A complete item without a link, and an item that has no title.\<close>

definition complete_item :: element where
  "complete_item = \<lparr>el_standard_id = Some ''MA.3.NSO.1.1'', el_title = Some ''Place value'',
                     el_description = Some '' Read and write numbers '', el_anchor = None\<rparr>"

definition untitled_item :: element where
  "untitled_item = \<lparr>el_standard_id = Some ''MA.3.NSO.1.2'', el_title = None,
                     el_description = Some ''Compose and decompose numbers'', el_anchor = None\<rparr>"

definition two_items_response :: "nat \<Rightarrow> request \<Rightarrow> response" where
  "two_items_response n r =
     (case r of Unit_page subj grd \<Rightarrow> Page [complete_item, untitled_item] | _ \<Rightarrow> Page [])"

definition two_items_env :: env where
  "two_items_env = quiet_env\<lparr>http_get := two_items_response\<rparr>"

text \<open>A page whose first item has the three fields and a link element without \<open>href\<close>.\<close>

definition hrefless_item :: element where
  "hrefless_item = \<lparr>el_standard_id = Some ''MA.3.NSO.1.1'', el_title = Some ''Place value'',
                     el_description = Some '' Read and write numbers '', el_anchor = Some None\<rparr>"

definition hrefless_response :: "nat \<Rightarrow> request \<Rightarrow> response" where
  "hrefless_response n r =
     (case r of Unit_page subj grd \<Rightarrow> Page [hrefless_item, untitled_item] | _ \<Rightarrow> Page [])"

definition hrefless_env :: env where
  "hrefless_env = quiet_env\<lparr>http_get := hrefless_response\<rparr>"

text \<open>Two records with the same identifier and different contents.\<close>

definition first_version :: standard where
  "first_version = \<lparr>standard_id = ''MA.3.NSO.1.1'', subject = ''Mathematics'', grade = ''3'',
                     title = ''Place value'', description = ''Read numbers'',
                     keywords_json = ''[]'', url = Some ''https://www.cpalms.org/s/1''\<rparr>"

definition second_version :: standard where
  "second_version = \<lparr>standard_id = ''MA.3.NSO.1.1'', subject = ''Math'', grade = ''4'',
                      title = ''Place value revised'', description = ''Write numbers'',
                      keywords_json = ''[]'', url = None\<rparr>"

text \<open>
  A database that holds one row for that identifier with the columns \<open>domain\<close>, \<open>cluster\<close>
  and \<open>clarifications\<close> filled in.
\<close>

definition annotated_row :: row where
  "annotated_row =
     \<lparr>row_id = 1, row_standard_id = Some ''MA.3.NSO.1.1'', row_state = Some ''FL'',
      row_subject = Some ''Mathematics'', row_grade = Some ''3'',
      row_domain = Some ''Number Sense'', row_cluster = Some ''Place value'',
      row_title = Some ''Place value'', row_description = Some ''Read numbers'',
      row_clarifications = Some ''Within 10,000'', row_keywords = Some ''[]'',
      row_url = None, row_created_at = 0\<rparr>"

definition annotated_world :: world where
  "annotated_world = empty_world\<lparr>standards_table := [annotated_row], standards_seq := 1,
                                  clock := 7\<rparr>"

text \<open>The first insert into \<open>standards\<close> raises, the later ones do not.\<close>

definition first_insert_fails :: "nat \<Rightarrow> statement \<Rightarrow> string option" where
  "first_insert_fails n s = (if n = 0 then Some ''string or blob too big'' else None)"

definition first_insert_fails_env :: env where
  "first_insert_fails_env = quiet_env\<lparr>sql_fault := first_insert_fails\<rparr>"

text \<open>
  A server with two Florida documents whose item lists are empty; in \<open>failing_api\<close> the
  request for the items of the first one fails.
\<close>

definition florida_documents :: "cf_document list" where
  "florida_documents =
     [\<lparr>doc_title = Some ''Florida Mathematics'', doc_identifier = Some ''doc-1''\<rparr>,
      \<lparr>doc_title = Some ''Florida Science'', doc_identifier = Some ''doc-2''\<rparr>]"

definition items_unless_first :: "nat \<Rightarrow> string \<Rightarrow> exn + cf_item list option" where
  "items_unless_first n ident =
     (if ident = ''doc-1'' then Inl (RequestException ''503 Server Error'') else Inr (Some []))"

definition failing_api :: api_env where
  "failing_api = \<lparr>api_documents = Inr (Some florida_documents), api_items = items_unless_first\<rparr>"

text \<open>
  The same server with a third Florida document in front, whose item list is empty.
\<close>

definition quiet_document :: cf_document where
  "quiet_document = \<lparr>doc_title = Some ''Florida Arts'', doc_identifier = Some ''doc-0''\<rparr>"

definition late_failing_api :: api_env where
  "late_failing_api = \<lparr>api_documents = Inr (Some (quiet_document # florida_documents)),
                        api_items = items_unless_first\<rparr>"

definition unreachable_api :: api_env where
  "unreachable_api = \<lparr>api_documents = Inl (RequestException ''connection refused''),
                       api_items = items_unless_first\<rparr>"
section \<open>What each step leaves unchanged\<close>

lemma print_fields [simp]:
  "standards_table (print m w) = standards_table w"
  "standards_seq (print m w) = standards_seq w"
  "scraping_log (print m w) = scraping_log w"
  "scraping_log_seq (print m w) = scraping_log_seq w"
  "clock (print m w) = clock w"
  "n_requests (print m w) = n_requests w"
  "n_statements (print m w) = n_statements w"
  "trace (print m w) = trace w @ [Printed m]"
  by (simp_all add: print_def)

lemma sleep_fields [simp]:
  "standards_table (sleep d w) = standards_table w"
  "standards_seq (sleep d w) = standards_seq w"
  "scraping_log (sleep d w) = scraping_log w"
  "scraping_log_seq (sleep d w) = scraping_log_seq w"
  "clock (sleep d w) = clock w + d"
  "n_requests (sleep d w) = n_requests w"
  "n_statements (sleep d w) = n_statements w"
  "trace (sleep d w) = trace w @ [Slept d]"
  by (simp_all add: sleep_def)

lemma send_fields [simp]:
  "standards_table (send r w) = standards_table w"
  "standards_seq (send r w) = standards_seq w"
  "scraping_log (send r w) = scraping_log w"
  "scraping_log_seq (send r w) = scraping_log_seq w"
  "clock (send r w) = clock w"
  "n_requests (send r w) = Suc (n_requests w)"
  "n_statements (send r w) = n_statements w"
  "trace (send r w) = trace w @ [Requested r]"
  by (simp_all add: send_def)

lemma executed_fields [simp]:
  "standards_table (executed w) = standards_table w"
  "standards_seq (executed w) = standards_seq w"
  "scraping_log (executed w) = scraping_log w"
  "scraping_log_seq (executed w) = scraping_log_seq w"
  "clock (executed w) = clock w"
  "n_requests (executed w) = n_requests w"
  "n_statements (executed w) = Suc (n_statements w)"
  "trace (executed w) = trace w"
  by (simp_all add: executed_def)

lemma insert_or_replace_fields [simp]:
  "standards_table (insert_or_replace s w) =
     filter (\<lambda>r. row_standard_id r \<noteq> Some (standard_id s)) (standards_table w)
     @ [new_row s (Suc (standards_seq w)) (clock w)]"
  "standards_seq (insert_or_replace s w) = Suc (standards_seq w)"
  "scraping_log (insert_or_replace s w) = scraping_log w"
  "scraping_log_seq (insert_or_replace s w) = scraping_log_seq w"
  "clock (insert_or_replace s w) = clock w"
  "n_requests (insert_or_replace s w) = n_requests w"
  "n_statements (insert_or_replace s w) = n_statements w"
  "trace (insert_or_replace s w) = trace w"
  by (simp_all add: insert_or_replace_def)

lemma insert_log_fields [simp]:
  "standards_table (insert_log subj grd st k notes w) = standards_table w"
  "standards_seq (insert_log subj grd st k notes w) = standards_seq w"
  "scraping_log (insert_log subj grd st k notes w) =
     scraping_log w @ [new_log_row subj grd st k notes (Suc (scraping_log_seq w)) (clock w)]"
  "scraping_log_seq (insert_log subj grd st k notes w) = Suc (scraping_log_seq w)"
  "clock (insert_log subj grd st k notes w) = clock w"
  "n_requests (insert_log subj grd st k notes w) = n_requests w"
  "n_statements (insert_log subj grd st k notes w) = n_statements w"
  "trace (insert_log subj grd st k notes w) = trace w"
  by (simp_all add: insert_log_def)

lemma save_loop_fields [simp]:
  "scraping_log (save_loop e ss w) = scraping_log w"
  "scraping_log_seq (save_loop e ss w) = scraping_log_seq w"
  "clock (save_loop e ss w) = clock w"
  "n_requests (save_loop e ss w) = n_requests w"
  "n_statements (save_loop e ss w) = n_statements w + length ss"
  by (induction ss arbitrary: w; simp split: option.splits)+

lemma save_standards_to_db_fields [simp]:
  "scraping_log (save_standards_to_db e ss w) = scraping_log w"
  "scraping_log_seq (save_standards_to_db e ss w) = scraping_log_seq w"
  "clock (save_standards_to_db e ss w) = clock w"
  "n_requests (save_standards_to_db e ss w) = n_requests w"
  "n_statements (save_standards_to_db e ss w) = n_statements w + length ss"
  by (simp_all add: save_standards_to_db_def)

lemma extract_standard_data_fields [simp]:
  "standards_table (snd (extract_standard_data c e el subj grd w)) = standards_table w"
  "standards_seq (snd (extract_standard_data c e el subj grd w)) = standards_seq w"
  "scraping_log (snd (extract_standard_data c e el subj grd w)) = scraping_log w"
  "scraping_log_seq (snd (extract_standard_data c e el subj grd w)) = scraping_log_seq w"
  "clock (snd (extract_standard_data c e el subj grd w)) = clock w"
  "n_requests (snd (extract_standard_data c e el subj grd w)) = n_requests w"
  "n_statements (snd (extract_standard_data c e el subj grd w)) = n_statements w"
  by (simp_all add: extract_standard_data_def Let_def split: option.splits sum.splits)

lemma extract_loop_fields [simp]:
  "standards_table (snd (extract_loop c e subj grd els acc w)) = standards_table w"
  "standards_seq (snd (extract_loop c e subj grd els acc w)) = standards_seq w"
  "scraping_log (snd (extract_loop c e subj grd els acc w)) = scraping_log w"
  "scraping_log_seq (snd (extract_loop c e subj grd els acc w)) = scraping_log_seq w"
  "clock (snd (extract_loop c e subj grd els acc w)) = clock w"
  "n_requests (snd (extract_loop c e subj grd els acc w)) = n_requests w"
  "n_statements (snd (extract_loop c e subj grd els acc w)) = n_statements w"
proof (induction els arbitrary: acc w)
  case Nil
  {
    case 1 show ?case by simp
  next
    case 2 show ?case by simp
  next
    case 3 show ?case by simp
  next
    case 4 show ?case by simp
  next
    case 5 show ?case by simp
  next
    case 6 show ?case by simp
  next
    case 7 show ?case by simp
  }
next
  case (Cons el els)
  have step: "extract_loop c e subj grd (el # els) acc w =
     extract_loop c e subj grd els
       (case fst (extract_standard_data c e el subj grd w) of
          Some sd \<Rightarrow> acc @ [sd] | None \<Rightarrow> acc)
       (snd (extract_standard_data c e el subj grd w))" for acc w
    by (cases "extract_standard_data c e el subj grd w") (simp split: option.splits)
  {
    case 1 show ?case by (simp only: step Cons.IH extract_standard_data_fields)
  next
    case 2 show ?case by (simp only: step Cons.IH extract_standard_data_fields)
  next
    case 3 show ?case by (simp only: step Cons.IH extract_standard_data_fields)
  next
    case 4 show ?case by (simp only: step Cons.IH extract_standard_data_fields)
  next
    case 5 show ?case by (simp only: step Cons.IH extract_standard_data_fields)
  next
    case 6 show ?case by (simp only: step Cons.IH extract_standard_data_fields)
  next
    case 7 show ?case by (simp only: step Cons.IH extract_standard_data_fields)
  }
qed


lemma scrape_fields [simp]:
  "standards_table (snd (scrape_standards_by_subject_grade c e subj grd w)) = standards_table w"
  "standards_seq (snd (scrape_standards_by_subject_grade c e subj grd w)) = standards_seq w"
  "scraping_log (snd (scrape_standards_by_subject_grade c e subj grd w)) = scraping_log w"
  "scraping_log_seq (snd (scrape_standards_by_subject_grade c e subj grd w)) = scraping_log_seq w"
  "n_statements (snd (scrape_standards_by_subject_grade c e subj grd w)) = n_statements w"
proof -
  show "standards_table (snd (scrape_standards_by_subject_grade c e subj grd w)) = standards_table w"
    by (simp add: scrape_standards_by_subject_grade_def split_beta
        split: response.splits exn.splits)
  show "standards_seq (snd (scrape_standards_by_subject_grade c e subj grd w)) = standards_seq w"
    by (simp add: scrape_standards_by_subject_grade_def split_beta
        split: response.splits exn.splits)
  show "scraping_log (snd (scrape_standards_by_subject_grade c e subj grd w)) = scraping_log w"
    by (simp add: scrape_standards_by_subject_grade_def split_beta
        split: response.splits exn.splits)
  show "scraping_log_seq (snd (scrape_standards_by_subject_grade c e subj grd w)) = scraping_log_seq w"
    by (simp add: scrape_standards_by_subject_grade_def split_beta
        split: response.splits exn.splits)
  show "n_statements (snd (scrape_standards_by_subject_grade c e subj grd w)) = n_statements w"
    by (simp add: scrape_standards_by_subject_grade_def split_beta
        split: response.splits exn.splits)
qed

lemma log_scraping_activity_fields [simp]:
  "standards_table (snd (log_scraping_activity e subj grd st k notes w)) = standards_table w"
  "standards_seq (snd (log_scraping_activity e subj grd st k notes w)) = standards_seq w"
  "n_requests (snd (log_scraping_activity e subj grd st k notes w)) = n_requests w"
  "n_statements (snd (log_scraping_activity e subj grd st k notes w)) = Suc (n_statements w)"
  by (simp_all add: log_scraping_activity_def split: option.splits)

lemma unit_handler_fields [simp]:
  "standards_table (snd (unit_handler e x subj grd t w)) = standards_table w"
  "standards_seq (snd (unit_handler e x subj grd t w)) = standards_seq w"
  by (simp_all add: unit_handler_def log_scraping_activity_def split: option.splits)

lemma setup_database_fields [simp]:
  "standards_table (snd (setup_database e w)) = standards_table w"
  "standards_seq (snd (setup_database e w)) = standards_seq w"
  "scraping_log (snd (setup_database e w)) = scraping_log w"
  "scraping_log_seq (snd (setup_database e w)) = scraping_log_seq w"
  by (simp_all add: setup_database_def Let_def split: option.splits)

lemma get_subjects_and_grades_fields [simp]:
  "standards_table (snd (get_subjects_and_grades e w)) = standards_table w"
  "standards_seq (snd (get_subjects_and_grades e w)) = standards_seq w"
  "scraping_log (snd (get_subjects_and_grades e w)) = scraping_log w"
  "scraping_log_seq (snd (get_subjects_and_grades e w)) = scraping_log_seq w"
  by (simp_all add: get_subjects_and_grades_def split: response.splits exn.splits)

section \<open>Properties of keyword extraction\<close>

declare findall.simps [simp del]

lemma lower_letters: "is_letter (lower_char c) \<Longrightarrow> is_lower_letter (lower_char c)"
  by (auto simp: is_letter_def is_lower_letter_def lower_char_def code_point_def Let_def
           split: if_splits)

lemma sublist_dropWhile_Cons: "sublist w (dropWhile P cs) \<Longrightarrow> sublist w (c # cs)"
proof -
  assume a: "sublist w (dropWhile P cs)"
  have "suffix (dropWhile P cs) cs" by (rule suffix_dropWhile)
  then have "sublist (dropWhile P cs) cs" by (rule suffix_imp_sublist)
  with a have "sublist w cs" by (rule sublist_order.order_trans)
  then show ?thesis by (simp add: sublist_Cons_right)
qed

lemma sublist_takeWhile_Cons: "sublist (c # takeWhile P cs) (c # cs)"
proof -
  have "prefix (takeWhile P cs) cs"
    by (rule takeWhile_is_prefix)
  then have "prefix (c # takeWhile P cs) (c # cs)" by simp
  then show ?thesis by (rule prefix_imp_sublist)
qed

lemma findall_tokens:
  "w \<in> set (findall p s) \<Longrightarrow> 3 \<le> length w \<and> (\<forall>c\<in>set w. is_letter c) \<and> sublist w s"
proof (induction p s rule: findall.induct)
  case (1 prev)
  then show ?case by (simp add: findall.simps(1))
next
  case (2 prev c cs)
  show ?case
  proof (cases "\<not> prev \<and> is_letter c \<and> 2 \<le> length (takeWhile is_letter cs)
         \<and> boundary_after (dropWhile is_letter cs)")
    case True
    have "findall prev (c # cs)
          = (c # takeWhile is_letter cs) # findall True (dropWhile is_letter cs)"
      by (subst findall.simps(2)) (rule if_P[OF True])
    with "2.prems"
    have "w = c # takeWhile is_letter cs \<or> w \<in> set (findall True (dropWhile is_letter cs))"
      by simp
    then show ?thesis
    proof
      assume w: "w = c # takeWhile is_letter cs"
      have l: "\<forall>x\<in>set (takeWhile is_letter cs). is_letter x"
        by (auto dest: set_takeWhileD)
      from True have c: "is_letter c" and n: "2 \<le> length (takeWhile is_letter cs)"
        by simp_all
      from l c n show ?thesis
        unfolding w by (simp add: sublist_takeWhile_Cons)
    next
      assume m: "w \<in> set (findall True (dropWhile is_letter cs))"
      from "2.IH"(1)[OF True m]
      have ih: "3 \<le> length w \<and> (\<forall>c\<in>set w. is_letter c) \<and> sublist w (dropWhile is_letter cs)" .
      then have "sublist w (dropWhile is_letter cs)" by simp
      then have "sublist w (c # cs)" by (rule sublist_dropWhile_Cons)
      with ih show ?thesis by simp
    qed
  next
    case False
    have "findall prev (c # cs) = findall (is_word_char c) cs"
      by (subst findall.simps(2)) (rule if_not_P[OF False])
    with "2.prems" have m: "w \<in> set (findall (is_word_char c) cs)"
      by simp
    from "2.IH"(2)[OF False m]
    have ih: "3 \<le> length w \<and> (\<forall>c\<in>set w. is_letter c) \<and> sublist w cs" .
    then show ?thesis by (simp add: sublist_Cons_right)
  qed
qed

lemma extract_keywords_candidates:
  "extract_keywords ord t = take 20 (ord (candidate_keywords t))"
  by (simp add: extract_keywords_def candidate_keywords_def)

lemma candidate_props:
  assumes "k \<in> set (candidate_keywords t)"
  shows "3 \<le> length k \<and> (\<forall>c\<in>set k. is_lower_letter c) \<and> sublist k (lower t)
         \<and> k \<notin> set stop_words"
proof -
  from assms have m: "k \<in> set (findall False (lower t))" and s: "k \<notin> set stop_words"
    by (auto simp: candidate_keywords_def)
  from findall_tokens[OF m] have a: "3 \<le> length k" and b: "\<forall>c\<in>set k. is_letter c"
    and c: "sublist k (lower t)"
    by auto
  have sub: "set k \<subseteq> set (lower t)" using c by (rule set_mono_sublist)
  have "is_lower_letter x" if x: "x \<in> set k" for x
  proof -
    from x sub obtain d where d: "x = lower_char d" by (auto simp: lower_def)
    from b x have "is_letter x" by simp
    with d show ?thesis by (simp add: lower_letters)
  qed
  with a c s show ?thesis by simp
qed

lemma set_iteration_insertion_order: "set_iteration insertion_order"
  by (simp add: set_iteration_def insertion_order_def)

lemma set_iteration_reversed_order: "set_iteration reversed_order"
  by (simp add: set_iteration_def reversed_order_def)

text \<open>
  Claim C5. For every text and every set iteration order, \<open>extract_keywords\<close> returns at
  most 20 strings, all different, each made of the letters a..z only, at least 3 long,
  occurring in the lower-cased text and not a stop word; on the empty text it returns the
  empty list. The function is total: it has no failing branch.
\<close>

theorem extract_keywords_bounded:
  assumes "set_iteration ord"
  shows "length (extract_keywords ord t) \<le> 20 \<and> distinct (extract_keywords ord t)
    \<and> (\<forall>k\<in>set (extract_keywords ord t).
          3 \<le> length k \<and> (\<forall>c\<in>set k. is_lower_letter c) \<and> sublist k (lower t)
          \<and> k \<notin> set stop_words)
    \<and> extract_keywords ord [] = []"
proof -
  from assms have d: "distinct (ord (candidate_keywords t))"
    and s: "set (ord (candidate_keywords t)) = set (candidate_keywords t)"
    and e: "set (ord []) = {}"
    by (simp_all add: set_iteration_def)
  have 1: "length (extract_keywords ord t) \<le> 20"
    by (simp add: extract_keywords_candidates)
  have 2: "distinct (extract_keywords ord t)"
    using d by (simp add: extract_keywords_candidates)
  have sub: "set (extract_keywords ord t) \<subseteq> set (candidate_keywords t)"
    using s set_take_subset[of 20 "ord (candidate_keywords t)"]
    by (simp add: extract_keywords_candidates)
  have 3: "\<forall>k\<in>set (extract_keywords ord t).
          3 \<le> length k \<and> (\<forall>c\<in>set k. is_lower_letter c) \<and> sublist k (lower t)
          \<and> k \<notin> set stop_words"
  proof
    fix k assume "k \<in> set (extract_keywords ord t)"
    with sub have "k \<in> set (candidate_keywords t)" by auto
    then show "3 \<le> length k \<and> (\<forall>c\<in>set k. is_lower_letter c) \<and> sublist k (lower t)
          \<and> k \<notin> set stop_words"
      by (rule candidate_props)
  qed
  have 4: "extract_keywords ord [] = []"
    using e by (simp add: extract_keywords_def lower_def findall.simps(1))
  show ?thesis
    by (intro conjI) (rule 1, rule 2, rule 3, rule 4)
qed

theorem extract_keywords_bounded_witness:
  "set_iteration insertion_order
   \<and> extract_keywords insertion_order short_description = [''compare'', ''fractions'', ''explain'']
   \<and> length (extract_keywords insertion_order short_description) \<le> 20
   \<and> distinct (extract_keywords insertion_order short_description)"
  apply (intro conjI)
     apply (rule set_iteration_insertion_order)
    apply code_simp
   apply (rule extract_keywords_bounded[OF set_iteration_insertion_order, THEN conjunct1])
  apply (rule extract_keywords_bounded[OF set_iteration_insertion_order, THEN conjunct2,
        THEN conjunct1])
  done

text \<open>
  Claim C9 fails on the code when the text has more than 20 different candidate keywords.
  The comment above the \<open>return\<close> says \<open>limited to most frequent\<close>, but the statement
  \<open>list(set(keywords))[:20]\<close> ranks nothing: it keeps the first 20 elements in the
  iteration order of the set. On a description with 21 candidates the first 20 in insertion
  order leave out \<open>zip\<close>, which the first 20 in the reverse order contain: two
  interpreters with different iteration orders return different results for one text.
\<close>

theorem extract_keywords_overflow_order_dependent:
  "set_iteration insertion_order \<and> set_iteration reversed_order
   \<and> length (candidate_keywords long_description) = 21
   \<and> distinct (candidate_keywords long_description)
   \<and> ''zip'' \<notin> set (extract_keywords insertion_order long_description)
   \<and> ''zip'' \<in> set (extract_keywords reversed_order long_description)"
  apply (intro conjI)
       apply (rule set_iteration_insertion_order)
      apply (rule set_iteration_reversed_order)
     apply code_simp
    apply code_simp
   apply code_simp
  apply code_simp
  done

text \<open>
  The defect shows on overflow only: when the text has at most 20 different candidate
  keywords, every iteration order returns the same set of keywords, namely all candidates.
\<close>

lemma extract_keywords_without_overflow:
  assumes "set_iteration o1" and "set_iteration o2"
    and "card (set (candidate_keywords t)) \<le> 20"
  shows "set (extract_keywords o1 t) = set (candidate_keywords t)
         \<and> set (extract_keywords o2 t) = set (extract_keywords o1 t)"
proof -
  have full: "set (extract_keywords ord t) = set (candidate_keywords t)"
    if "set_iteration ord" for ord
  proof -
    from that have d: "distinct (ord (candidate_keywords t))"
      and s: "set (ord (candidate_keywords t)) = set (candidate_keywords t)"
      by (simp_all add: set_iteration_def)
    from d have "length (ord (candidate_keywords t)) = card (set (ord (candidate_keywords t)))"
      by (simp add: distinct_card)
    with s assms(3) have "length (ord (candidate_keywords t)) \<le> 20" by simp
    then show ?thesis using s by (simp add: extract_keywords_candidates)
  qed
  from full[OF assms(1)] full[OF assms(2)] show ?thesis by simp
qed

section \<open>Properties of the store\<close>

lemma upsert_rows:
  "filter (\<lambda>r. row_standard_id r = Some (standard_id s)) (standards_table (insert_or_replace s w))
     = [new_row s (Suc (standards_seq w)) (clock w)]"
  "filter (\<lambda>r. row_standard_id r \<noteq> Some (standard_id s)) (standards_table (insert_or_replace s w))
     = filter (\<lambda>r. row_standard_id r \<noteq> Some (standard_id s)) (standards_table w)"
  by (simp_all add: new_row_def)

lemma save_one:
  "save_standards_to_db e [s] w =
     (case sql_fault e (n_statements w) (Insert_or_replace s) of
        None \<Rightarrow> insert_or_replace s (executed w)
      | Some m \<Rightarrow> print (Error_saving (standard_id s) m) (executed w))"
  by (simp add: save_standards_to_db_def)





lemma insert_or_replace_state:
  assumes "\<forall>r\<in>set (standards_table w). row_state r = Some ''FL''"
  shows "\<forall>r\<in>set (standards_table (insert_or_replace s w)). row_state r = Some ''FL''"
  using assms by (auto simp: new_row_def)

lemma save_loop_state:
  "\<forall>r\<in>set (standards_table w). row_state r = Some ''FL''
   \<Longrightarrow> \<forall>r\<in>set (standards_table (save_loop e ss w)). row_state r = Some ''FL''"
proof (induction ss arbitrary: w)
  case Nil
  then show ?case by simp
next
  case (Cons s ss)
  show ?case
  proof (cases "sql_fault e (n_statements w) (Insert_or_replace s)")
    case None
    have "\<forall>r\<in>set (standards_table (insert_or_replace s (executed w))). row_state r = Some ''FL''"
      by (rule insert_or_replace_state) (use Cons.prems in simp)
    then have "\<forall>r\<in>set (standards_table (save_loop e ss (insert_or_replace s (executed w)))).
                 row_state r = Some ''FL''"
      by (rule Cons.IH)
    with None show ?thesis by simp
  next
    case (Some m)
    have "\<forall>r\<in>set (standards_table (print (Error_saving (standard_id s) m) (executed w))).
            row_state r = Some ''FL''"
      using Cons.prems by simp
    then have "\<forall>r\<in>set (standards_table
                 (save_loop e ss (print (Error_saving (standard_id s) m) (executed w)))).
                 row_state r = Some ''FL''"
      by (rule Cons.IH)
    with Some show ?thesis by simp
  qed
qed

lemma save_standards_to_db_state:
  "\<forall>r\<in>set (standards_table w). row_state r = Some ''FL''
   \<Longrightarrow> \<forall>r\<in>set (standards_table (save_standards_to_db e ss w)). row_state r = Some ''FL''"
  by (simp add: save_standards_to_db_def save_loop_state)

lemma collect_unit_state:
  assumes "\<forall>r\<in>set (standards_table w). row_state r = Some ''FL''"
  shows "\<forall>r\<in>set (standards_table (snd (collect_unit c e subj grd t w))). row_state r = Some ''FL''"
proof -
  let ?p = "scrape_standards_by_subject_grade c e subj grd (print (Scraping subj grd) w)"
  have w1: "\<forall>r\<in>set (standards_table (snd ?p)). row_state r = Some ''FL''"
    using assms by simp
  then have w2: "\<forall>r\<in>set (standards_table (save_standards_to_db e ss (snd ?p))).
                  row_state r = Some ''FL''" for ss
    by (rule save_standards_to_db_state)
  show ?thesis
    using w1 w2
    by (simp add: collect_unit_def Let_def split_beta split: sum.splits)
qed

lemma grades_loop_state:
  "\<forall>r\<in>set (standards_table w). row_state r = Some ''FL''
   \<Longrightarrow> \<forall>r\<in>set (standards_table (snd (grades_loop c e subj grds t w))). row_state r = Some ''FL''"
proof (induction grds arbitrary: t w)
  case Nil
  then show ?case by simp
next
  case (Cons grd grds)
  have "\<forall>r\<in>set (standards_table (snd (collect_unit c e subj grd t w))). row_state r = Some ''FL''"
    using Cons.prems by (rule collect_unit_state)
  then have "\<forall>r\<in>set (standards_table
                (snd (grades_loop c e subj grds t' (snd (collect_unit c e subj grd t w))))).
               row_state r = Some ''FL''" for t'
    by (rule Cons.IH)
  moreover note \<open>\<forall>r\<in>set (standards_table (snd (collect_unit c e subj grd t w))). row_state r = Some ''FL''\<close>
  ultimately show ?case
    by (simp add: split_beta split: sum.splits)
qed

lemma subjects_loop_state:
  "\<forall>r\<in>set (standards_table w). row_state r = Some ''FL''
   \<Longrightarrow> \<forall>r\<in>set (standards_table (snd (subjects_loop c e subjs grds t w))). row_state r = Some ''FL''"
proof (induction subjs arbitrary: t w)
  case Nil
  then show ?case by simp
next
  case (Cons subj subjs)
  have g: "\<forall>r\<in>set (standards_table (snd (grades_loop c e subj grds t w))). row_state r = Some ''FL''"
    using Cons.prems by (rule grades_loop_state)
  then have "\<forall>r\<in>set (standards_table
                (snd (subjects_loop c e subjs grds t' (snd (grades_loop c e subj grds t w))))).
               row_state r = Some ''FL''" for t'
    by (rule Cons.IH)
  with g show ?case
    by (simp add: split_beta split: sum.splits)
qed

lemma collect_all_standards_state:
  assumes "\<forall>r\<in>set (standards_table w). row_state r = Some ''FL''"
  shows "\<forall>r\<in>set (standards_table (snd (collect_all_standards c e fs fg w))).
           row_state r = Some ''FL''"
proof -
  let ?w1 = "snd (setup_database e (print Setting_up_database w))"
  let ?w2 = "snd (get_subjects_and_grades e (print Getting_available ?w1))"
  have "\<forall>r\<in>set (standards_table (print m ?w2)). row_state r = Some ''FL''" for m
    using assms by simp
  then have "\<forall>r\<in>set (standards_table (snd (subjects_loop c e subjs grds 0 (print m ?w2)))).
               row_state r = Some ''FL''" for m subjs grds
    by (rule subjects_loop_state)
  then show ?thesis
    using assms
    by (simp add: collect_all_standards_def Let_def split_beta split: sum.splits)
qed

text \<open>
  Claim C10. The run writes rows whose \<open>state\<close> is \<open>'FL'\<close> only: when every row of the
  table has that state before \<open>collect_all_standards\<close> (as in a new database), every row
  has it afterwards, whatever the pages and the faults. An upsert that succeeds leaves, for
  its \<open>standard_id\<close>, exactly one row: the seven values of the record, \<open>NULL\<close> in \<open>domain\<close>,
  \<open>cluster\<close> and \<open>clarifications\<close>, \<open>'FL'\<close> in \<open>state\<close>, the time of the statement in
  \<open>created_at\<close> and a fresh \<open>id\<close>; nothing of a row replaced is kept.
\<close>

theorem state_default_and_reset:
  assumes "\<forall>r\<in>set (standards_table w). row_state r = Some ''FL''"
    and "sql_fault e (n_statements w) (Insert_or_replace s) = None"
  shows "(\<forall>r\<in>set (standards_table (snd (collect_all_standards c e fs fg w))).
            row_state r = Some ''FL'')
       \<and> (\<forall>r\<in>set (standards_table (save_standards_to_db e ss w)). row_state r = Some ''FL'')
       \<and> filter (\<lambda>r. row_standard_id r = Some (standard_id s))
            (standards_table (save_standards_to_db e [s] w))
          = [\<lparr>row_id = Suc (standards_seq w),
               row_standard_id = Some (standard_id s),
               row_state = Some ''FL'',
               row_subject = Some (subject s),
               row_grade = Some (grade s),
               row_domain = None,
               row_cluster = None,
               row_title = Some (title s),
               row_description = Some (description s),
               row_clarifications = None,
               row_keywords = Some (keywords_json s),
               row_url = url s,
               row_created_at = clock w\<rparr>]"
proof -
  have 1: "\<forall>r\<in>set (standards_table (snd (collect_all_standards c e fs fg w))).
            row_state r = Some ''FL''"
    using assms(1) by (rule collect_all_standards_state)
  have 2: "\<forall>r\<in>set (standards_table (save_standards_to_db e ss w)). row_state r = Some ''FL''"
    using assms(1) by (rule save_standards_to_db_state)
  have "save_standards_to_db e [s] w = insert_or_replace s (executed w)"
    using assms(2) by (simp add: save_one)
  then have 3: "filter (\<lambda>r. row_standard_id r = Some (standard_id s))
            (standards_table (save_standards_to_db e [s] w))
          = [new_row s (Suc (standards_seq w)) (clock w)]"
    using upsert_rows(1)[of s "executed w"] by simp
  show ?thesis
    by (intro conjI) (rule 1, rule 2, simp only: 3 new_row_def)
qed

theorem state_default_and_reset_witness:
  "map row_state (standards_table annotated_world) = [Some ''FL'']
   \<and> sql_fault quiet_env (n_statements annotated_world) (Insert_or_replace second_version) = None
   \<and> map row_domain (standards_table annotated_world) = [Some ''Number Sense'']
   \<and> map row_created_at (standards_table annotated_world) = [0]
   \<and> map row_domain (filter (\<lambda>r. row_standard_id r = Some (standard_id second_version))
        (standards_table (save_standards_to_db quiet_env [second_version] annotated_world)))
      = [None]
   \<and> map row_created_at (filter (\<lambda>r. row_standard_id r = Some (standard_id second_version))
        (standards_table (save_standards_to_db quiet_env [second_version] annotated_world)))
      = [7]"
proof -
  have a: "\<forall>r\<in>set (standards_table annotated_world). row_state r = Some ''FL''"
    by (simp add: annotated_world_def annotated_row_def)
  have b: "sql_fault quiet_env (n_statements annotated_world) (Insert_or_replace second_version)
           = None"
    by (simp add: quiet_env_def)
  have c: "map row_domain (standards_table annotated_world) = [Some ''Number Sense'']"
    "map row_created_at (standards_table annotated_world) = [0]"
    "clock annotated_world = 7"
    by (simp_all add: annotated_world_def annotated_row_def empty_world_def)
  have d: "map row_state (standards_table annotated_world) = [Some ''FL'']"
    by (simp add: annotated_world_def annotated_row_def)
  from state_default_and_reset[OF a b, THEN conjunct2, THEN conjunct2] b c d
  show ?thesis by simp
qed

section \<open>Properties of scraping one unit\<close>

lemmas run_defs = collect_all_standards_def setup_database_def get_subjects_and_grades_def
  py_or_def collect_unit_def scrape_standards_by_subject_grade_def unit_handler_def
  log_scraping_activity_def Let_def

lemma incomplete_item:
  assumes "el_standard_id el = None \<or> el_title el = None \<or> el_description el = None"
  shows "extract_standard_data c e el subj grd w = (None, w)"
  using assms by (auto simp: extract_standard_data_def split: option.splits)

text \<open>
  Claim C6, as stated, fails in its last part. An item that has identifier, title and
  description, and a link element without \<open>href\<close>, raises a \<open>KeyError\<close> in
  \<open>extract_standard_data\<close>; the handler of that function prints it and returns \<open>None\<close>.
  A page with such an item and an item without title gives no record at all.
\<close>

theorem complete_item_dropped_counterexample:
  "el_standard_id hrefless_item = Some ''MA.3.NSO.1.1''
   \<and> el_title hrefless_item = Some ''Place value''
   \<and> el_description hrefless_item = Some '' Read and write numbers ''
   \<and> el_title untitled_item = None
   \<and> http_get hrefless_env (n_requests empty_world) (Unit_page ''Mathematics'' ''3'')
       = Page [hrefless_item, untitled_item]
   \<and> fst (scrape_standards_by_subject_grade new_collector hrefless_env ''Mathematics'' ''3''
          empty_world) = Inr []
   \<and> Printed (Error_extracting key_error_href)
       \<in> set (trace (snd (scrape_standards_by_subject_grade new_collector hrefless_env
                ''Mathematics'' ''3'' empty_world)))"
  by (simp add: scrape_standards_by_subject_grade_def extract_standard_data_def Let_def
        hrefless_env_def hrefless_response_def hrefless_item_def untitled_item_def
        quiet_env_def empty_world_def new_collector_def)

text \<open>
  Claim C6, amended. An item element without identifier, title or description makes
  \<open>extract_standard_data\<close> return \<open>None\<close> and leaves the world as it is: nothing is printed.
  The loop over the elements goes on as if the element were not there, so the element adds
  nothing to the list whose length is \<open>records_collected\<close>. A page with one such item and
  one item that has the three fields and either no link element, or a link element whose
  \<open>href\<close> is resolved by \<open>urljoin\<close>, gives exactly one record: the record of the second
  item, in either order of the two.
\<close>

theorem incomplete_item_dropped:
  assumes "el_standard_id el = None \<or> el_title el = None \<or> el_description el = None"
    and "http_get e (n_requests w) (Unit_page subj grd) = Page [v, el]
         \<or> http_get e (n_requests w) (Unit_page subj grd) = Page [el, v]"
    and "el_standard_id v = Some sid" and "el_title v = Some ttl"
    and "el_description v = Some descr"
    and "el_anchor v = None \<and> u = None
         \<or> (\<exists>href p. el_anchor v = Some (Some href) \<and> urljoin e (base_url c) href = Inr p
                       \<and> u = Some p)"
  shows "extract_standard_data c e el subj grd w0 = (None, w0)
       \<and> extract_loop c e subj grd (el # els) acc w0 = extract_loop c e subj grd els acc w0
       \<and> fst (scrape_standards_by_subject_grade c e subj grd w)
         = Inr [\<lparr>standard_id = strip sid, subject = subj, grade = grd, title = strip ttl,
                 description = strip descr,
                 keywords_json = json_dumps (extract_keywords (set_order e) descr),
                 url = u\<rparr>]"
proof -
  have drop: "extract_standard_data c e el subj grd w' = (None, w')" for w'
    using assms(1) by (rule incomplete_item)
  have keep: "extract_standard_data c e v subj grd w'
      = (Some \<lparr>standard_id = strip sid, subject = subj, grade = grd, title = strip ttl,
               description = strip descr,
               keywords_json = json_dumps (extract_keywords (set_order e) descr),
               url = u\<rparr>, w')" for w'
    using assms(6)
  proof
    assume "el_anchor v = None \<and> u = None"
    then show ?thesis
      by (simp add: extract_standard_data_def assms(3) assms(4) assms(5) Let_def)
  next
    assume "\<exists>href p. el_anchor v = Some (Some href) \<and> urljoin e (base_url c) href = Inr p
                       \<and> u = Some p"
    then obtain href p where "el_anchor v = Some (Some href)"
      and "urljoin e (base_url c) href = Inr p" and "u = Some p"
      by auto
    then show ?thesis
      by (simp add: extract_standard_data_def assms(3) assms(4) assms(5) Let_def)
  qed
  have 1: "extract_loop c e subj grd (el # els) acc w0 = extract_loop c e subj grd els acc w0"
    by (simp add: drop)
  have 2: "fst (scrape_standards_by_subject_grade c e subj grd w)
         = Inr [\<lparr>standard_id = strip sid, subject = subj, grade = grd, title = strip ttl,
                 description = strip descr,
                 keywords_json = json_dumps (extract_keywords (set_order e) descr),
                 url = u\<rparr>]"
    using assms(2)
  proof
    assume "http_get e (n_requests w) (Unit_page subj grd) = Page [v, el]"
    then show ?thesis
      by (simp add: scrape_standards_by_subject_grade_def drop keep)
  next
    assume "http_get e (n_requests w) (Unit_page subj grd) = Page [el, v]"
    then show ?thesis
      by (simp add: scrape_standards_by_subject_grade_def drop keep)
  qed
  from drop[of w0] 1 2 show ?thesis by simp
qed

theorem incomplete_item_dropped_witness:
  "(el_standard_id untitled_item = None \<or> el_title untitled_item = None
      \<or> el_description untitled_item = None)
   \<and> http_get two_items_env (n_requests empty_world) (Unit_page ''Mathematics'' ''3'')
       = Page [complete_item, untitled_item]
   \<and> el_standard_id complete_item = Some ''MA.3.NSO.1.1''
   \<and> el_title complete_item = Some ''Place value''
   \<and> el_description complete_item = Some '' Read and write numbers ''
   \<and> el_anchor complete_item = None
   \<and> map standard_id (projr (fst (scrape_standards_by_subject_grade new_collector two_items_env
         ''Mathematics'' ''3'' empty_world))) = [''MA.3.NSO.1.1'']
   \<and> map description (projr (fst (scrape_standards_by_subject_grade new_collector two_items_env
         ''Mathematics'' ''3'' empty_world))) = [''Read and write numbers'']"
proof -
  have a: "el_standard_id untitled_item = None \<or> el_title untitled_item = None
      \<or> el_description untitled_item = None"
    by (simp add: untitled_item_def)
  have b: "http_get two_items_env (n_requests empty_world) (Unit_page ''Mathematics'' ''3'')
       = Page [complete_item, untitled_item]"
    by (simp add: two_items_env_def two_items_response_def)
  have b': "http_get two_items_env (n_requests empty_world) (Unit_page ''Mathematics'' ''3'')
       = Page [complete_item, untitled_item]
     \<or> http_get two_items_env (n_requests empty_world) (Unit_page ''Mathematics'' ''3'')
       = Page [untitled_item, complete_item]"
    using b by simp
  have c: "el_standard_id complete_item = Some ''MA.3.NSO.1.1''"
    "el_title complete_item = Some ''Place value''"
    "el_description complete_item = Some '' Read and write numbers ''"
    "el_anchor complete_item = None"
    by (simp_all add: complete_item_def)
  have d: "el_anchor complete_item = None \<and> (None :: string option) = None
         \<or> (\<exists>href p. el_anchor complete_item = Some (Some href)
                \<and> urljoin two_items_env (base_url new_collector) href = Inr p
                \<and> (None :: string option) = Some p)"
    using c(4) by simp
  have s: "strip ''MA.3.NSO.1.1'' = ''MA.3.NSO.1.1''"
    "strip '' Read and write numbers '' = ''Read and write numbers''"
    by code_simp+
  from incomplete_item_dropped[OF a b' c(1) c(2) c(3) d, THEN conjunct2, THEN conjunct2]
  have "map standard_id (projr (fst (scrape_standards_by_subject_grade new_collector
           two_items_env ''Mathematics'' ''3'' empty_world))) = [''MA.3.NSO.1.1'']
      \<and> map description (projr (fst (scrape_standards_by_subject_grade new_collector
           two_items_env ''Mathematics'' ''3'' empty_world))) = [''Read and write numbers'']"
    by (simp add: s)
  with a b c show ?thesis by simp
qed

text \<open>
  Claim C3 fails on the code when the fetch of a unit raises a request exception:
  \<open>time.sleep\<close> is the last statement of the \<open>try\<close> block, so the handler is entered
  without it. In a run over two units whose requests time out, the second request follows
  the first with no delay in between, and the clock does not advance.
\<close>

theorem failed_fetch_skips_delay:
  "http_get timeout_env 0 (Unit_page ''Mathematics'' ''3'') = Raises (RequestException ''timed out'')
   \<and> trace (snd (scrape_standards_by_subject_grade new_collector timeout_env
        ''Mathematics'' ''3'' empty_world))
     = [Requested (Unit_page ''Mathematics'' ''3''),
        Printed (Error_scraping ''Mathematics'' ''3'' ''timed out'')]
   \<and> trace (snd (collect_all_standards new_collector timeout_env
        (Some [''Mathematics'']) (Some [''3'', ''4'']) empty_world))
     = [Printed Setting_up_database, Printed Getting_available, Requested Search_page,
        Printed (Planning 1 2),
        Printed (Scraping ''Mathematics'' ''3''), Requested (Unit_page ''Mathematics'' ''3''),
        Printed (Error_scraping ''Mathematics'' ''3'' ''timed out''), Printed No_standards_found,
        Printed (Scraping ''Mathematics'' ''4''), Requested (Unit_page ''Mathematics'' ''4''),
        Printed (Error_scraping ''Mathematics'' ''4'' ''timed out''), Printed No_standards_found,
        Printed (Collection_complete 0)]
   \<and> clock (snd (collect_all_standards new_collector timeout_env
        (Some [''Mathematics'']) (Some [''3'', ''4'']) empty_world)) = 0
   \<and> trace (snd (scrape_standards_by_subject_grade new_collector quiet_env
        ''Mathematics'' ''3'' empty_world))
     = [Requested (Unit_page ''Mathematics'' ''3''), Slept 2]"
  by (simp_all add: run_defs new_collector_def timeout_env_def timeout_response_def
        quiet_env_def empty_world_def)

section \<open>Properties of the collection run\<close>




lemma log_raised:
  "sql_fault e (n_statements w) (Insert_log subj grd st k notes) = Some m
   \<Longrightarrow> log_scraping_activity e subj grd st k notes w = (Inl (OtherException m), executed w)"
  by (simp add: log_scraping_activity_def)

lemma unit_handler_logged:
  "sql_fault e (n_statements w) (Insert_log subj grd ''error'' 0 (str_exn x)) = None
   \<Longrightarrow> unit_handler e x subj grd t w
       = (Inr t, insert_log subj grd ''error'' 0 (str_exn x)
                   (executed (print (Error_in_unit (str_exn x)) w)))"
  by (simp add: unit_handler_def log_scraping_activity_def)

lemma unit_handler_raised:
  "sql_fault e (n_statements w) (Insert_log subj grd ''error'' 0 (str_exn x)) = Some m
   \<Longrightarrow> unit_handler e x subj grd t w
       = (Inl (OtherException m), executed (print (Error_in_unit (str_exn x)) w))"
  by (simp add: unit_handler_def log_scraping_activity_def)




lemma save_standards_to_db_append:
  "save_standards_to_db e (ss @ [s]) w
     = (case sql_fault e (n_statements w + length ss) (Insert_or_replace s) of
          None \<Rightarrow> insert_or_replace s (executed (save_standards_to_db e ss w))
        | Some m \<Rightarrow> print (Error_saving (standard_id s) m)
                     (executed (save_standards_to_db e ss w)))"
proof -
  have eq: "save_standards_to_db e xs w' = save_loop e xs w'" for xs w'
    by (simp add: save_standards_to_db_def)
  have "save_loop e (ss @ [s]) w' = save_loop e [s] (save_loop e ss w')" for w'
    by (induction ss arbitrary: w') simp_all
  then show ?thesis
    unfolding eq by simp
qed

lemma scrape_returns:
  assumes "\<forall>x. http_get e (n_requests w) (Unit_page subj grd) \<noteq> Raises (OtherException x)"
  shows "\<exists>standards. fst (scrape_standards_by_subject_grade c e subj grd w) = Inr standards"
  using assms
  by (simp add: scrape_standards_by_subject_grade_def split_beta
        split: response.splits exn.splits)

lemma grades_loop_raised:
  "fst (collect_unit c e subj grd t w) = Inl x
   \<Longrightarrow> fst (grades_loop c e subj (grd # grds) t w) = Inl x"
  by (cases "collect_unit c e subj grd t w") simp

lemma subjects_loop_raised:
  "fst (grades_loop c e subj grds t w) = Inl x
   \<Longrightarrow> fst (subjects_loop c e (subj # subjs) grds t w) = Inl x"
  by (cases "grades_loop c e subj grds t w") simp

text \<open>
  The run up to its loops, when the two \<open>CREATE TABLE\<close> statements succeed, the request
  for the search page raises nothing but request exceptions, and both focus lists are
  given and not empty.
\<close>

lemma collect_all_standards_loops:
  assumes "sql_fault e (n_statements w) Create_standards = None"
    and "sql_fault e (Suc (n_statements w)) Create_scraping_log = None"
    and "\<forall>x. http_get e (n_requests w) Search_page \<noteq> Raises (OtherException x)"
    and "subjects \<noteq> []" and "grades \<noteq> []"
  shows "\<exists>w3. standards_table w3 = standards_table w \<and> scraping_log w3 = scraping_log w
          \<and> collect_all_standards c e (Some subjects) (Some grades) w
            = (case subjects_loop c e subjects grades 0 w3 of
                 (Inl x, w4) \<Rightarrow> (Inl x, w4)
               | (Inr total_collected, w4) \<Rightarrow>
                   (Inr total_collected, print (Collection_complete total_collected) w4))"
proof -
  let ?w1 = "executed (executed (print Setting_up_database w))"
  have s: "setup_database e (print Setting_up_database w) = (Inr (), ?w1)"
    using assms(1) assms(2) by (simp add: setup_database_def Let_def)
  have "\<exists>av. fst (get_subjects_and_grades e (print Getting_available ?w1)) = Inr av"
    using assms(3)
    by (simp add: get_subjects_and_grades_def split: response.splits exn.splits)
  then obtain av where "fst (get_subjects_and_grades e (print Getting_available ?w1)) = Inr av"
    by auto
  then obtain w2 where g: "get_subjects_and_grades e (print Getting_available ?w1) = (Inr av, w2)"
    by (cases "get_subjects_and_grades e (print Getting_available ?w1)") simp
  have w2: "standards_table w2 = standards_table w" "scraping_log w2 = scraping_log w"
    using get_subjects_and_grades_fields(1)[of e "print Getting_available ?w1"]
      get_subjects_and_grades_fields(3)[of e "print Getting_available ?w1"]
    by (simp_all add: g)
  have p: "py_or (Some subjects) (fst av) = subjects" "py_or (Some grades) (snd av) = grades"
    using assms(4) assms(5) by (simp_all add: py_or_def split: list.splits)
  let ?w3 = "print (Planning (length subjects) (length grades)) w2"
  have "standards_table ?w3 = standards_table w \<and> scraping_log ?w3 = scraping_log w
          \<and> collect_all_standards c e (Some subjects) (Some grades) w
            = (case subjects_loop c e subjects grades 0 ?w3 of
                 (Inl x, w4) \<Rightarrow> (Inl x, w4)
               | (Inr total_collected, w4) \<Rightarrow>
                   (Inr total_collected, print (Collection_complete total_collected) w4))"
    by (simp add: collect_all_standards_def s g p w2 Let_def)
  then show ?thesis
    by (rule exI[of _ ?w3])
qed

text \<open>
  Claim C7, as stated, fails: both calls of \<open>log_scraping_activity\<close> in the \<open>try\<close> block
  of a unit are covered by its handler \<open>except Exception\<close>. When the insert of the
  \<open>no_data\<close> row raises while the insert of an \<open>error\<close> row succeeds, the run ends
  normally and returns 0; the failure is printed and kept as the notes of an \<open>error\<close> row.
\<close>

theorem log_failure_fatal_counterexample:
  "sql_fault locked_log_env 2 (Insert_log ''Mathematics'' ''3'' ''no_data'' 0 ''No standards found'')
     = Some ''database is locked''
   \<and> fst (collect_all_standards new_collector locked_log_env (Some [''Mathematics''])
          (Some [''3'']) empty_world) = Inr 0
   \<and> map log_status (scraping_log (snd (collect_all_standards new_collector locked_log_env
          (Some [''Mathematics'']) (Some [''3'']) empty_world))) = [''error'']
   \<and> map log_notes (scraping_log (snd (collect_all_standards new_collector locked_log_env
          (Some [''Mathematics'']) (Some [''3'']) empty_world))) = [''database is locked'']
   \<and> Printed (Error_in_unit ''database is locked'')
       \<in> set (trace (snd (collect_all_standards new_collector locked_log_env
                (Some [''Mathematics'']) (Some [''3'']) empty_world)))
   \<and> last (trace (snd (collect_all_standards new_collector locked_log_env
                (Some [''Mathematics'']) (Some [''3'']) empty_world)))
     = Printed (Collection_complete 0)"
  by (simp add: run_defs new_collector_def locked_log_env_def locked_unless_error_def
        quiet_env_def empty_world_def new_log_row_def)

lemma log_failure_unit:
  assumes "\<forall>n st k notes. st \<noteq> ''error''
             \<longrightarrow> sql_fault e n (Insert_log subj grd st k notes) = Some m"
    and "\<forall>n x. http_get e n (Unit_page subj grd) \<noteq> Raises (OtherException x)"
  shows "((\<forall>n. sql_fault e n (Insert_log subj grd ''error'' 0 m) = None)
          \<longrightarrow> (\<exists>t' r. fst (collect_unit c e subj grd t w) = Inr t'
                \<and> scraping_log (snd (collect_unit c e subj grd t w)) = scraping_log w @ [r]
                \<and> log_subject r = subj \<and> log_grade r = grd \<and> log_status r = ''error''
                \<and> log_records_collected r = 0 \<and> log_notes r = m))
       \<and> ((\<forall>n. sql_fault e n (Insert_log subj grd ''error'' 0 m) = Some m')
          \<longrightarrow> fst (collect_unit c e subj grd t w) = Inl (OtherException m')
              \<and> scraping_log (snd (collect_unit c e subj grd t w)) = scraping_log w
              \<and> (sql_fault e (n_statements w0) Create_standards = None
                  \<and> sql_fault e (Suc (n_statements w0)) Create_scraping_log = None
                  \<and> (\<forall>x. http_get e (n_requests w0) Search_page \<noteq> Raises (OtherException x))
                 \<longrightarrow> fst (collect_all_standards c e (Some (subj # subjs)) (Some (grd # grds)) w0)
                     = Inl (OtherException m')))"
proof -
  have unit: "\<exists>t' w3. collect_unit c e subj grd t w
                = unit_handler e (OtherException m) subj grd t' w3
              \<and> scraping_log w3 = scraping_log w" for t w
  proof -
    let ?w0 = "print (Scraping subj grd) w"
    from assms(2) have "\<forall>x. http_get e (n_requests ?w0) (Unit_page subj grd)
                          \<noteq> Raises (OtherException x)"
      by simp
    from scrape_returns[OF this, of c]
    obtain standards where "fst (scrape_standards_by_subject_grade c e subj grd ?w0) = Inr standards"
      by auto
    then obtain w1 where s: "scrape_standards_by_subject_grade c e subj grd ?w0 = (Inr standards, w1)"
      by (cases "scrape_standards_by_subject_grade c e subj grd ?w0") simp
    have l1: "scraping_log w1 = scraping_log w"
      using scrape_fields(3)[of c e subj grd ?w0] by (simp add: s)
    show ?thesis
    proof (cases "standards = []")
      case True
      let ?w2 = "print No_standards_found w1"
      have "sql_fault e (n_statements ?w2)
              (Insert_log subj grd ''no_data'' 0 ''No standards found'') = Some m"
        using assms(1) by simp
      then have "log_scraping_activity e subj grd ''no_data'' 0 ''No standards found'' ?w2
            = (Inl (OtherException m), executed ?w2)"
        by (rule log_raised)
      with True have k: "collect_unit c e subj grd t w
            = unit_handler e (OtherException m) subj grd (t + length standards) (executed ?w2)
          \<and> scraping_log (executed ?w2) = scraping_log w"
        by (simp add: collect_unit_def s l1)
      show ?thesis
        apply (rule exI[of _ "t + length standards"])
        apply (rule exI[of _ "executed ?w2"])
        apply (rule k)
        done
    next
      case False
      let ?w2 = "print (Collected (length standards)) (save_standards_to_db e standards w1)"
      have "sql_fault e (n_statements ?w2)
              (Insert_log subj grd ''success'' (length standards) []) = Some m"
        using assms(1) by simp
      then have "log_scraping_activity e subj grd ''success'' (length standards) [] ?w2
            = (Inl (OtherException m), executed ?w2)"
        by (rule log_raised)
      with False have k: "collect_unit c e subj grd t w
            = unit_handler e (OtherException m) subj grd (t + length standards) (executed ?w2)
          \<and> scraping_log (executed ?w2) = scraping_log w"
        by (simp add: collect_unit_def s l1 Let_def)
      show ?thesis
        apply (rule exI[of _ "t + length standards"])
        apply (rule exI[of _ "executed ?w2"])
        apply (rule k)
        done
    qed
  qed
  have 1: "\<exists>t' r. fst (collect_unit c e subj grd t w) = Inr t'
                \<and> scraping_log (snd (collect_unit c e subj grd t w)) = scraping_log w @ [r]
                \<and> log_subject r = subj \<and> log_grade r = grd \<and> log_status r = ''error''
                \<and> log_records_collected r = 0 \<and> log_notes r = m"
    if ok: "\<forall>n. sql_fault e n (Insert_log subj grd ''error'' 0 m) = None"
  proof -
    from unit[of t w] obtain t' w3
      where u: "collect_unit c e subj grd t w
                = unit_handler e (OtherException m) subj grd t' w3"
        and l3: "scraping_log w3 = scraping_log w"
      by blast
    have "sql_fault e (n_statements w3) (Insert_log subj grd ''error'' 0
            (str_exn (OtherException m))) = None"
      using ok by simp
    from unit_handler_logged[OF this, of t']
    have h: "collect_unit c e subj grd t w
          = (Inr t',
             insert_log subj grd ''error'' 0 m (executed (print (Error_in_unit m) w3)))"
      by (simp add: u)
    show ?thesis
      by (simp add: h l3 new_log_row_def)
  qed
  have raised: "fst (collect_unit c e subj grd t w) = Inl (OtherException m')
              \<and> scraping_log (snd (collect_unit c e subj grd t w)) = scraping_log w"
    if bad: "\<forall>n. sql_fault e n (Insert_log subj grd ''error'' 0 m) = Some m'" for t w
  proof -
    from unit[of t w] obtain t' w3
      where u: "collect_unit c e subj grd t w
                = unit_handler e (OtherException m) subj grd t' w3"
        and l3: "scraping_log w3 = scraping_log w"
      by blast
    have "sql_fault e (n_statements w3) (Insert_log subj grd ''error'' 0
            (str_exn (OtherException m))) = Some m'"
      using bad by simp
    from unit_handler_raised[OF this, of t']
    have h: "collect_unit c e subj grd t w
          = (Inl (OtherException m'), executed (print (Error_in_unit m) w3))"
      by (simp add: u)
    show ?thesis
      by (simp add: h l3)
  qed
  have 2: "fst (collect_all_standards c e (Some (subj # subjs)) (Some (grd # grds)) w0)
             = Inl (OtherException m')"
    if bad: "\<forall>n. sql_fault e n (Insert_log subj grd ''error'' 0 m) = Some m'"
      and a: "sql_fault e (n_statements w0) Create_standards = None"
      and b: "sql_fault e (Suc (n_statements w0)) Create_scraping_log = None"
      and d: "\<forall>x. http_get e (n_requests w0) Search_page \<noteq> Raises (OtherException x)"
  proof -
    from collect_all_standards_loops[OF a b d, of "subj # subjs" "grd # grds" c]
    obtain w3 where r: "collect_all_standards c e (Some (subj # subjs)) (Some (grd # grds)) w0
            = (case subjects_loop c e (subj # subjs) (grd # grds) 0 w3 of
                 (Inl x, w4) \<Rightarrow> (Inl x, w4)
               | (Inr total_collected, w4) \<Rightarrow>
                   (Inr total_collected, print (Collection_complete total_collected) w4))"
      by auto
    have "fst (collect_unit c e subj grd 0 w3) = Inl (OtherException m')"
      using raised[OF bad] by simp
    then have "fst (grades_loop c e subj (grd # grds) 0 w3) = Inl (OtherException m')"
      by (rule grades_loop_raised)
    then have "fst (subjects_loop c e (subj # subjs) (grd # grds) 0 w3) = Inl (OtherException m')"
      by (rule subjects_loop_raised)
    then show ?thesis
      unfolding r by (cases "subjects_loop c e (subj # subjs) (grd # grds) 0 w3") simp
  qed
  from 1 raised[of t w] 2 show ?thesis by blast
qed


text \<open>
  Claim C7, amended. Let the fetch of a unit raise nothing but request exceptions, and
  let the insert of the unit's \<open>success\<close> or \<open>no_data\<close> log row raise with the message
  \<open>m\<close>. The handler of the unit catches the failure and inserts an \<open>error\<close> row with \<open>m\<close>
  as notes. If that insert succeeds, the unit ends normally, and the log has exactly one
  new row, the \<open>error\<close> row. Only if the handler's own insert raises does the failure
  leave the unit, with no row logged; it then leaves the run: \<open>collect_all_standards\<close>
  started on that unit ends with the exception. An upsert that raises is caught for its
  record: whatever happened to the records before it in the batch, a record whose upsert
  succeeds is in the table afterwards.
\<close>

theorem log_failure_handling:
  "((\<forall>n st k notes. st \<noteq> ''error''
        \<longrightarrow> sql_fault e n (Insert_log subj grd st k notes) = Some m)
    \<and> (\<forall>n x. http_get e n (Unit_page subj grd) \<noteq> Raises (OtherException x))
    \<longrightarrow> ((\<forall>n. sql_fault e n (Insert_log subj grd ''error'' 0 m) = None)
          \<longrightarrow> (\<exists>t' r. fst (collect_unit c e subj grd t w) = Inr t'
                \<and> scraping_log (snd (collect_unit c e subj grd t w)) = scraping_log w @ [r]
                \<and> log_subject r = subj \<and> log_grade r = grd \<and> log_status r = ''error''
                \<and> log_records_collected r = 0 \<and> log_notes r = m))
       \<and> ((\<forall>n. sql_fault e n (Insert_log subj grd ''error'' 0 m) = Some m')
          \<longrightarrow> fst (collect_unit c e subj grd t w) = Inl (OtherException m')
              \<and> scraping_log (snd (collect_unit c e subj grd t w)) = scraping_log w
              \<and> (sql_fault e (n_statements w0) Create_standards = None
                  \<and> sql_fault e (Suc (n_statements w0)) Create_scraping_log = None
                  \<and> (\<forall>x. http_get e (n_requests w0) Search_page \<noteq> Raises (OtherException x))
                 \<longrightarrow> fst (collect_all_standards c e (Some (subj # subjs)) (Some (grd # grds)) w0)
                     = Inl (OtherException m'))))
   \<and> (sql_fault e (n_statements w2 + length ss) (Insert_or_replace s) = None
      \<longrightarrow> new_row s (Suc (standards_seq (save_standards_to_db e ss w2))) (clock w2)
            \<in> set (standards_table (save_standards_to_db e (ss @ [s]) w2)))"
proof (intro conjI impI)
  assume h: "(\<forall>n st k notes. st \<noteq> ''error''
        \<longrightarrow> sql_fault e n (Insert_log subj grd st k notes) = Some m)
    \<and> (\<forall>n x. http_get e n (Unit_page subj grd) \<noteq> Raises (OtherException x))"
  then have h1: "\<forall>n st k notes. st \<noteq> ''error''
        \<longrightarrow> sql_fault e n (Insert_log subj grd st k notes) = Some m"
    and h2: "\<forall>n x. http_get e n (Unit_page subj grd) \<noteq> Raises (OtherException x)"
    by simp_all
  note u = log_failure_unit[OF h1 h2]
  {
    assume ok: "\<forall>n. sql_fault e n (Insert_log subj grd ''error'' 0 m) = None"
    from u[THEN conjunct1, THEN mp, OF ok]
    show "\<exists>t' r. fst (collect_unit c e subj grd t w) = Inr t'
                \<and> scraping_log (snd (collect_unit c e subj grd t w)) = scraping_log w @ [r]
                \<and> log_subject r = subj \<and> log_grade r = grd \<and> log_status r = ''error''
                \<and> log_records_collected r = 0 \<and> log_notes r = m" .
  }
  {
    assume bad: "\<forall>n. sql_fault e n (Insert_log subj grd ''error'' 0 m) = Some m'"
    note b = u[THEN conjunct2, THEN mp, OF bad]
    from b[THEN conjunct1]
    show "fst (collect_unit c e subj grd t w) = Inl (OtherException m')" .
    from b[THEN conjunct2, THEN conjunct1]
    show "scraping_log (snd (collect_unit c e subj grd t w)) = scraping_log w" .
    assume "sql_fault e (n_statements w0) Create_standards = None
                  \<and> sql_fault e (Suc (n_statements w0)) Create_scraping_log = None
                  \<and> (\<forall>x. http_get e (n_requests w0) Search_page \<noteq> Raises (OtherException x))"
    from b[THEN conjunct2, THEN conjunct2, THEN mp, OF this]
    show "fst (collect_all_standards c e (Some (subj # subjs)) (Some (grd # grds)) w0)
                     = Inl (OtherException m')" .
  }
next
  assume "sql_fault e (n_statements w2 + length ss) (Insert_or_replace s) = None"
  then show "new_row s (Suc (standards_seq (save_standards_to_db e ss w2))) (clock w2)
            \<in> set (standards_table (save_standards_to_db e (ss @ [s]) w2))"
    by (simp add: save_standards_to_db_append)
qed

theorem log_failure_handling_witness:
  "(\<forall>n st k notes. st = ''error''
       \<or> sql_fault locked_log_env n (Insert_log ''Mathematics'' ''3'' st k notes)
         = Some ''database is locked'')
   \<and> (\<forall>n. sql_fault locked_log_env n
            (Insert_log ''Mathematics'' ''3'' ''error'' 0 ''database is locked'') = None)
   \<and> \<not> isl (fst (collect_unit new_collector locked_log_env ''Mathematics'' ''3'' 0 empty_world))
   \<and> map log_status (scraping_log (snd (collect_unit new_collector locked_log_env
         ''Mathematics'' ''3'' 0 empty_world))) = [''error'']
   \<and> map log_notes (scraping_log (snd (collect_unit new_collector locked_log_env
         ''Mathematics'' ''3'' 0 empty_world))) = [''database is locked'']
   \<and> (\<forall>n. sql_fault dead_log_env n
            (Insert_log ''Mathematics'' ''3'' ''error'' 0 ''database is locked'')
          = Some ''database is locked'')
   \<and> fst (collect_all_standards new_collector dead_log_env (Some [''Mathematics''])
          (Some [''3'', ''4'']) empty_world) = Inl (OtherException ''database is locked'')
   \<and> sql_fault first_insert_fails_env 0 (Insert_or_replace first_version)
     = Some ''string or blob too big''
   \<and> sql_fault first_insert_fails_env 1 (Insert_or_replace second_version) = None
   \<and> new_row second_version 1 0
     \<in> set (standards_table (save_standards_to_db first_insert_fails_env
               [first_version, second_version] empty_world))"
proof -
  have a: "\<forall>n st k notes. st \<noteq> ''error''
             \<longrightarrow> sql_fault locked_log_env n (Insert_log ''Mathematics'' ''3'' st k notes)
                 = Some ''database is locked''"
    by (simp add: locked_log_env_def locked_unless_error_def quiet_env_def)
  have b: "\<forall>n x. http_get locked_log_env n (Unit_page ''Mathematics'' ''3'')
             \<noteq> Raises (OtherException x)"
    by (simp add: locked_log_env_def quiet_env_def)
  have c: "\<forall>n. sql_fault locked_log_env n
            (Insert_log ''Mathematics'' ''3'' ''error'' 0 ''database is locked'') = None"
    by (simp add: locked_log_env_def locked_unless_error_def quiet_env_def)
  have a': "\<forall>n st k notes. st \<noteq> ''error''
             \<longrightarrow> sql_fault dead_log_env n (Insert_log ''Mathematics'' ''3'' st k notes)
                 = Some ''database is locked''"
    by (simp add: dead_log_env_def locked_log_def quiet_env_def)
  have b': "\<forall>n x. http_get dead_log_env n (Unit_page ''Mathematics'' ''3'')
             \<noteq> Raises (OtherException x)"
    by (simp add: dead_log_env_def quiet_env_def)
  have c': "\<forall>n. sql_fault dead_log_env n
            (Insert_log ''Mathematics'' ''3'' ''error'' 0 ''database is locked'')
          = Some ''database is locked''"
    by (simp add: dead_log_env_def locked_log_def quiet_env_def)
  have s: "sql_fault dead_log_env (n_statements empty_world) Create_standards = None
         \<and> sql_fault dead_log_env (Suc (n_statements empty_world)) Create_scraping_log = None
         \<and> (\<forall>x. http_get dead_log_env (n_requests empty_world) Search_page
                 \<noteq> Raises (OtherException x))"
    by (simp add: dead_log_env_def locked_log_def quiet_env_def)
  have d: "sql_fault first_insert_fails_env 0 (Insert_or_replace first_version)
     = Some ''string or blob too big''"
    "sql_fault first_insert_fails_env 1 (Insert_or_replace second_version) = None"
    by (simp_all add: first_insert_fails_env_def first_insert_fails_def quiet_env_def)
  have e: "scraping_log empty_world = []" "n_statements empty_world = 0"
    "standards_seq empty_world = 0" "clock empty_world = 0"
    by (simp_all add: empty_world_def)
  from log_failure_handling[THEN conjunct1, THEN mp, OF conjI[OF a b], THEN conjunct1,
      THEN mp, OF c, of new_collector 0 empty_world]
  obtain t' r where
    r: "fst (collect_unit new_collector locked_log_env ''Mathematics'' ''3'' 0 empty_world) = Inr t'"
      "scraping_log (snd (collect_unit new_collector locked_log_env ''Mathematics'' ''3'' 0
         empty_world)) = scraping_log empty_world @ [r]"
      "log_status r = ''error''" "log_notes r = ''database is locked''"
    by blast
  have 1: "\<not> isl (fst (collect_unit new_collector locked_log_env ''Mathematics'' ''3'' 0
             empty_world))"
    "map log_status (scraping_log (snd (collect_unit new_collector locked_log_env
         ''Mathematics'' ''3'' 0 empty_world))) = [''error'']"
    "map log_notes (scraping_log (snd (collect_unit new_collector locked_log_env
         ''Mathematics'' ''3'' 0 empty_world))) = [''database is locked'']"
    by (simp_all add: r e)
  from log_failure_handling[THEN conjunct1, THEN mp, OF conjI[OF a' b'], THEN conjunct2,
      THEN mp, OF c', THEN conjunct2, THEN conjunct2, THEN mp, OF s]
  have 2: "fst (collect_all_standards new_collector dead_log_env (Some [''Mathematics''])
          (Some [''3'', ''4'']) empty_world) = Inl (OtherException ''database is locked'')" .
  have f: "sql_fault first_insert_fails_env (n_statements empty_world + length [first_version])
             (Insert_or_replace second_version) = None"
    using d(2) by (simp add: e)
  have q: "standards_seq (save_standards_to_db first_insert_fails_env [first_version]
             empty_world) = 0"
    by (simp add: save_one d e)
  from log_failure_handling[THEN conjunct2, THEN mp, OF f]
  have 3: "new_row second_version 1 0
     \<in> set (standards_table (save_standards_to_db first_insert_fails_env
               [first_version, second_version] empty_world))"
    by (simp add: q e)
  from a c c' d 1 2 3 show ?thesis by auto
qed

lemma collect_unit_logs_once:
  assumes "\<forall>n notes. sql_fault e n (Insert_log subj grd ''error'' 0 notes) = None"
  shows "\<exists>t' r. fst (collect_unit c e subj grd t w) = Inr t'
           \<and> scraping_log (snd (collect_unit c e subj grd t w)) = scraping_log w @ [r]
           \<and> log_subject r = subj \<and> log_grade r = grd"
proof -
  have handler: "unit_handler e x subj grd t' w'
      = (Inr t', insert_log subj grd ''error'' 0 (str_exn x)
                   (executed (print (Error_in_unit (str_exn x)) w')))" for x t' w'
    by (rule unit_handler_logged) (simp add: assms)
  have logged: "\<exists>t' r. fst (case log_scraping_activity e subj grd st k nts w' of
                           (Inl x, w4) \<Rightarrow> unit_handler e x subj grd t1 w4
                         | (Inr u, w4) \<Rightarrow> (Inr t1, w4)) = Inr t'
           \<and> scraping_log (snd (case log_scraping_activity e subj grd st k nts w' of
                           (Inl x, w4) \<Rightarrow> unit_handler e x subj grd t1 w4
                         | (Inr u, w4) \<Rightarrow> (Inr t1, w4))) = scraping_log w' @ [r]
           \<and> log_subject r = subj \<and> log_grade r = grd" for st k nts w' t1
    by (cases "sql_fault e (n_statements w') (Insert_log subj grd st k nts)")
       (simp_all add: log_scraping_activity_def handler new_log_row_def)
  let ?w0 = "print (Scraping subj grd) w"
  obtain res w1 where s: "scrape_standards_by_subject_grade c e subj grd ?w0 = (res, w1)"
    by (cases "scrape_standards_by_subject_grade c e subj grd ?w0")
  have l1: "scraping_log w1 = scraping_log w"
    using scrape_fields(3)[of c e subj grd ?w0] by (simp add: s)
  show ?thesis
  proof (cases res)
    case (Inl x)
    then show ?thesis
      by (simp add: collect_unit_def s handler l1 new_log_row_def)
  next
    case (Inr standards)
    show ?thesis
    proof (cases "standards = []")
      case True
      from logged[where st = "''no_data''" and k = 0 and nts = "''No standards found''"
          and w' = "print No_standards_found w1" and ?t1.0 = t]
      show ?thesis
        by (simp add: collect_unit_def s Inr True l1)
    next
      case False
      from logged[where st = "''success''" and k = "length standards" and nts = "[]"
          and w' = "print (Collected (length standards)) (save_standards_to_db e standards w1)"
          and ?t1.0 = "t + length standards"]
      show ?thesis
        by (simp add: collect_unit_def s Inr False l1 Let_def)
    qed
  qed
qed

lemma grades_loop_logs:
  assumes "\<forall>n grd notes. sql_fault e n (Insert_log subj grd ''error'' 0 notes) = None"
  shows "\<exists>t' rs. fst (grades_loop c e subj grds t w) = Inr t'
           \<and> scraping_log (snd (grades_loop c e subj grds t w)) = scraping_log w @ rs
           \<and> map (\<lambda>r. (log_subject r, log_grade r)) rs = map (Pair subj) grds"
proof (induction grds arbitrary: t w)
  case Nil
  show ?case by simp
next
  case (Cons grd grds)
  from assms have "\<forall>n notes. sql_fault e n (Insert_log subj grd ''error'' 0 notes) = None"
    by simp
  from collect_unit_logs_once[OF this, of c t w]
  obtain t1 r where u: "fst (collect_unit c e subj grd t w) = Inr t1"
    and l: "scraping_log (snd (collect_unit c e subj grd t w)) = scraping_log w @ [r]"
    and k: "log_subject r = subj" "log_grade r = grd"
    by blast
  obtain w1 where cu: "collect_unit c e subj grd t w = (Inr t1, w1)"
    using u by (cases "collect_unit c e subj grd t w") simp
  from Cons.IH[of t1 w1]
  obtain t' rs where g: "fst (grades_loop c e subj grds t1 w1) = Inr t'"
    and gl: "scraping_log (snd (grades_loop c e subj grds t1 w1)) = scraping_log w1 @ rs"
    and gk: "map (\<lambda>r. (log_subject r, log_grade r)) rs = map (Pair subj) grds"
    by blast
  have w1: "scraping_log w1 = scraping_log w @ [r]"
    using l by (simp add: cu)
  have "fst (grades_loop c e subj (grd # grds) t w) = Inr t'
      \<and> scraping_log (snd (grades_loop c e subj (grd # grds) t w)) = scraping_log w @ (r # rs)
      \<and> map (\<lambda>r. (log_subject r, log_grade r)) (r # rs) = map (Pair subj) (grd # grds)"
    by (simp add: cu g gl gk w1 k)
  then show ?case
    apply (rule_tac x = t' in exI)
    apply (rule_tac x = "r # rs" in exI)
    apply assumption
    done
qed

lemma subjects_loop_logs:
  assumes "\<forall>n subj grd notes. sql_fault e n (Insert_log subj grd ''error'' 0 notes) = None"
  shows "\<exists>t' rs. fst (subjects_loop c e subjs grds t w) = Inr t'
           \<and> scraping_log (snd (subjects_loop c e subjs grds t w)) = scraping_log w @ rs
           \<and> map (\<lambda>r. (log_subject r, log_grade r)) rs = List.product subjs grds"
proof (induction subjs arbitrary: t w)
  case Nil
  show ?case by simp
next
  case (Cons subj subjs)
  from assms have "\<forall>n grd notes. sql_fault e n (Insert_log subj grd ''error'' 0 notes) = None"
    by simp
  from grades_loop_logs[OF this, of c grds t w]
  obtain t1 rs1 where u: "fst (grades_loop c e subj grds t w) = Inr t1"
    and l: "scraping_log (snd (grades_loop c e subj grds t w)) = scraping_log w @ rs1"
    and k: "map (\<lambda>r. (log_subject r, log_grade r)) rs1 = map (Pair subj) grds"
    by blast
  obtain w1 where gu: "grades_loop c e subj grds t w = (Inr t1, w1)"
    using u by (cases "grades_loop c e subj grds t w") simp
  from Cons.IH[of t1 w1]
  obtain t' rs where g: "fst (subjects_loop c e subjs grds t1 w1) = Inr t'"
    and gl: "scraping_log (snd (subjects_loop c e subjs grds t1 w1)) = scraping_log w1 @ rs"
    and gk: "map (\<lambda>r. (log_subject r, log_grade r)) rs = List.product subjs grds"
    by blast
  have w1: "scraping_log w1 = scraping_log w @ rs1"
    using l by (simp add: gu)
  have "fst (subjects_loop c e (subj # subjs) grds t w) = Inr t'
      \<and> scraping_log (snd (subjects_loop c e (subj # subjs) grds t w))
        = scraping_log w @ (rs1 @ rs)
      \<and> map (\<lambda>r. (log_subject r, log_grade r)) (rs1 @ rs) = List.product (subj # subjs) grds"
    by (simp add: gu g gl gk w1 k)
  then show ?case
    apply (rule_tac x = t' in exI)
    apply (rule_tac x = "rs1 @ rs" in exI)
    apply assumption
    done
qed

text \<open>
  Claim C2. Let the two \<open>CREATE TABLE\<close> statements succeed, let the request for the
  search page raise nothing but request exceptions, and let no insert of an \<open>error\<close> log
  row raise. Then \<open>collect_all_standards\<close>, called with a list of subjects and a list of
  grades that are not empty, returns a total, and the rows it appends to \<open>scraping_log\<close>
  are, in order, one row for each pair of the Cartesian product of the subjects and the
  grades, subjects outer and grades inner, whatever the pages of the units are, whether
  their requests raise, and whether the inserts of the other log rows and of the records
  raise.
\<close>

theorem one_log_entry_per_unit:
  assumes "sql_fault e (n_statements w) Create_standards = None"
    and "sql_fault e (Suc (n_statements w)) Create_scraping_log = None"
    and "\<forall>x. http_get e (n_requests w) Search_page \<noteq> Raises (OtherException x)"
    and "\<forall>n subj grd notes. sql_fault e n (Insert_log subj grd ''error'' 0 notes) = None"
    and "subjects \<noteq> []" and "grades \<noteq> []"
  shows "\<exists>total rs.
           fst (collect_all_standards c e (Some subjects) (Some grades) w) = Inr total
         \<and> scraping_log (snd (collect_all_standards c e (Some subjects) (Some grades) w))
           = scraping_log w @ rs
         \<and> map (\<lambda>r. (log_subject r, log_grade r)) rs = List.product subjects grades"
proof -
  from collect_all_standards_loops[OF assms(1) assms(2) assms(3) assms(5) assms(6), of c]
  obtain w3 where l3: "scraping_log w3 = scraping_log w"
    and r: "collect_all_standards c e (Some subjects) (Some grades) w
            = (case subjects_loop c e subjects grades 0 w3 of
                 (Inl x, w4) \<Rightarrow> (Inl x, w4)
               | (Inr total_collected, w4) \<Rightarrow>
                   (Inr total_collected, print (Collection_complete total_collected) w4))"
    by blast
  from subjects_loop_logs[OF assms(4), of c subjects grades 0 w3]
  obtain total rs where u: "fst (subjects_loop c e subjects grades 0 w3) = Inr total"
    and l: "scraping_log (snd (subjects_loop c e subjects grades 0 w3)) = scraping_log w3 @ rs"
    and k: "map (\<lambda>r. (log_subject r, log_grade r)) rs = List.product subjects grades"
    by blast
  obtain w4 where su: "subjects_loop c e subjects grades 0 w3 = (Inr total, w4)"
    using u by (cases "subjects_loop c e subjects grades 0 w3") simp
  have "fst (collect_all_standards c e (Some subjects) (Some grades) w) = Inr total
         \<and> scraping_log (snd (collect_all_standards c e (Some subjects) (Some grades) w))
           = scraping_log w @ rs
         \<and> map (\<lambda>r. (log_subject r, log_grade r)) rs = List.product subjects grades"
    using l by (simp add: r su l3 k)
  then show ?thesis
    apply (rule_tac x = total in exI)
    apply (rule_tac x = rs in exI)
    apply assumption
    done
qed

theorem one_log_entry_per_unit_witness:
  "sql_fault mixed_env (n_statements empty_world) Create_standards = None
   \<and> sql_fault mixed_env (Suc (n_statements empty_world)) Create_scraping_log = None
   \<and> (\<forall>x. http_get mixed_env (n_requests empty_world) Search_page \<noteq> Raises (OtherException x))
   \<and> (\<forall>n subj grd notes. sql_fault mixed_env n (Insert_log subj grd ''error'' 0 notes) = None)
   \<and> map (\<lambda>r. (log_subject r, log_grade r))
        (scraping_log (snd (collect_all_standards new_collector mixed_env
           (Some [''Mathematics'', ''Science'']) (Some [''3'', ''4'', ''5'']) empty_world)))
     = [(''Mathematics'', ''3''), (''Mathematics'', ''4''), (''Mathematics'', ''5''),
        (''Science'', ''3''), (''Science'', ''4''), (''Science'', ''5'')]
   \<and> map (\<lambda>r. (log_status r, log_records_collected r))
        (scraping_log (snd (collect_all_standards new_collector mixed_env
           (Some [''Mathematics'']) (Some [''3'', ''4'', ''5'']) empty_world)))
     = [(''no_data'', 0), (''error'', 0), (''success'', 1)]"
proof -
  have a: "sql_fault mixed_env (n_statements empty_world) Create_standards = None"
    and b: "sql_fault mixed_env (Suc (n_statements empty_world)) Create_scraping_log = None"
    and d: "\<forall>x. http_get mixed_env (n_requests empty_world) Search_page
                \<noteq> Raises (OtherException x)"
    and f: "\<forall>n subj grd notes. sql_fault mixed_env n (Insert_log subj grd ''error'' 0 notes)
                = None"
    by (simp_all add: mixed_env_def mixed_response_def quiet_env_def)
  have g: "[''Mathematics'', ''Science''] \<noteq> []" "[''3'', ''4'', ''5''] \<noteq> []"
    by simp_all
  from one_log_entry_per_unit[OF a b d f g, of new_collector]
  obtain rs where
    "scraping_log (snd (collect_all_standards new_collector mixed_env
           (Some [''Mathematics'', ''Science'']) (Some [''3'', ''4'', ''5'']) empty_world))
       = scraping_log empty_world @ rs"
    and "map (\<lambda>r. (log_subject r, log_grade r)) rs
       = List.product [''Mathematics'', ''Science''] [''3'', ''4'', ''5'']"
    by blast
  then have 1: "map (\<lambda>r. (log_subject r, log_grade r))
        (scraping_log (snd (collect_all_standards new_collector mixed_env
           (Some [''Mathematics'', ''Science'']) (Some [''3'', ''4'', ''5'']) empty_world)))
     = [(''Mathematics'', ''3''), (''Mathematics'', ''4''), (''Mathematics'', ''5''),
        (''Science'', ''3''), (''Science'', ''4''), (''Science'', ''5'')]"
    by (simp add: empty_world_def)
  have 2: "map (\<lambda>r. (log_status r, log_records_collected r))
        (scraping_log (snd (collect_all_standards new_collector mixed_env
           (Some [''Mathematics'']) (Some [''3'', ''4'', ''5'']) empty_world)))
     = [(''no_data'', 0), (''error'', 0), (''success'', 1)]"
    by (simp add: run_defs extract_standard_data_def save_standards_to_db_def
          new_collector_def mixed_env_def mixed_response_def quiet_env_def empty_world_def
          new_log_row_def)
  from a b d f 1 2 show ?thesis by simp
qed

section \<open>Properties of the collection through the API\<close>

text \<open>
  Documents that the loop passes without an exception: those whose title does not contain
  \<open>Florida\<close>, and those whose item list is requested and comes back empty.
\<close>

lemma documents_loop_passes:
  assumes "\<forall>d\<in>set pre. \<not> sublist ''Florida'' (get_or (doc_title d) [])
             \<or> (\<exists>i. doc_identifier d = Some i
                    \<and> (\<forall>n. \<exists>its. api_items a n i = Inr its \<and> get_or its [] = []))"
  shows "\<exists>w' tr. documents_loop a (pre @ rest) standards w = documents_loop a rest standards w'
           \<and> trace w' = trace w @ tr"
  using assms
proof (induction pre arbitrary: w)
  case Nil
  have "documents_loop a ([] @ rest) standards w = documents_loop a rest standards w
           \<and> trace w = trace w @ []"
    by simp
  then show ?case
    by (intro exI)
next
  case (Cons d pre)
  from Cons.prems have tl: "\<forall>d\<in>set pre. \<not> sublist ''Florida'' (get_or (doc_title d) [])
             \<or> (\<exists>i. doc_identifier d = Some i
                    \<and> (\<forall>n. \<exists>its. api_items a n i = Inr its \<and> get_or its [] = []))"
    by simp
  show ?case
  proof (cases "sublist ''Florida'' (get_or (doc_title d) [])")
    case False
    from Cons.IH[OF tl, of w]
    obtain w' tr where "documents_loop a (pre @ rest) standards w
                          = documents_loop a rest standards w'"
      and "trace w' = trace w @ tr"
      by blast
    with False have "documents_loop a ((d # pre) @ rest) standards w
                       = documents_loop a rest standards w' \<and> trace w' = trace w @ tr"
      by simp
    then show ?thesis
      by (intro exI)
  next
    case True
    with Cons.prems obtain i where i: "doc_identifier d = Some i"
      and "\<forall>n. \<exists>its. api_items a n i = Inr its \<and> get_or its [] = []"
      by auto
    then obtain its where its: "api_items a (n_requests w) i = Inr its" "get_or its [] = []"
      by blast
    from Cons.IH[OF tl, of "send (CFItems i) w"]
    obtain w' tr where "documents_loop a (pre @ rest) standards (send (CFItems i) w)
                          = documents_loop a rest standards w'"
      and "trace w' = trace (send (CFItems i) w) @ tr"
      by blast
    with True i its have "documents_loop a ((d # pre) @ rest) standards w
                       = documents_loop a rest standards w'
                     \<and> trace w' = trace w @ (Requested (CFItems i) # tr)"
      by (simp add: parse_case_competencies_def)
    then show ?thesis
      by (intro exI)
  qed
qed

text \<open>
  Claim C8, as stated, fails: the requests of both levels are in one \<open>try\<close> block with one
  handler. When the request for the items of the first of two Florida documents fails, the
  handler prints the failure and the function returns the empty list; the items of the
  second document are never requested.
\<close>

theorem item_failure_branch_only_counterexample:
  "api_documents failing_api = Inr (Some florida_documents)
   \<and> map doc_identifier florida_documents = [Some ''doc-1'', Some ''doc-2'']
   \<and> api_items failing_api 1 ''doc-1'' = Inl (RequestException ''503 Server Error'')
   \<and> api_items failing_api 2 ''doc-2'' = Inr (Some [])
   \<and> fst (get_standards_via_api failing_api empty_world) = Inr []
   \<and> trace (snd (get_standards_via_api failing_api empty_world))
     = [Requested CFDocuments, Requested (CFItems ''doc-1''),
        Printed (API_Error ''503 Server Error'')]"
  by (simp add: get_standards_via_api_def failing_api_def florida_documents_def
        items_unless_first_def get_or_def empty_world_def)

text \<open>
  Claim C8, amended. A request failure at either level ends the whole collection through
  the API: it is printed, and \<open>get_standards_via_api\<close> returns the empty list without
  raising. For the document list this is the first request. For the items of a document
  whose title contains \<open>Florida\<close>, it holds wherever the document stands in the list,
  the documents before it being passed without an exception: the failed request is the
  last one, so no document behind it is requested. No request exception ever leaves
  \<open>get_standards_via_api\<close>.
\<close>

theorem api_request_failure_aborts_all:
  "(api_documents a = Inl (RequestException m)
      \<longrightarrow> get_standards_via_api a w = (Inr [], print (API_Error m) (send CFDocuments w)))
   \<and> (api_documents a = Inr documents \<and> get_or documents [] = pre @ doc # post
       \<and> (\<forall>d\<in>set pre. \<not> sublist ''Florida'' (get_or (doc_title d) [])
             \<or> (\<exists>i. doc_identifier d = Some i
                    \<and> (\<forall>n. \<exists>its. api_items a n i = Inr its \<and> get_or its [] = [])))
       \<and> sublist ''Florida'' (get_or (doc_title doc) []) \<and> doc_identifier doc = Some ident
       \<and> (\<forall>n. api_items a n ident = Inl (RequestException m))
      \<longrightarrow> fst (get_standards_via_api a w) = Inr []
          \<and> (\<exists>tr. trace (snd (get_standards_via_api a w))
                  = trace w @ Requested CFDocuments # tr
                    @ [Requested (CFItems ident), Printed (API_Error m)]))
   \<and> fst (get_standards_via_api a w) \<noteq> Inl (RequestException m')"
proof (intro conjI impI)
  assume "api_documents a = Inl (RequestException m)"
  then show "get_standards_via_api a w = (Inr [], print (API_Error m) (send CFDocuments w))"
    by (simp add: get_standards_via_api_def)
next
  assume h: "api_documents a = Inr documents \<and> get_or documents [] = pre @ doc # post
       \<and> (\<forall>d\<in>set pre. \<not> sublist ''Florida'' (get_or (doc_title d) [])
             \<or> (\<exists>i. doc_identifier d = Some i
                    \<and> (\<forall>n. \<exists>its. api_items a n i = Inr its \<and> get_or its [] = [])))
       \<and> sublist ''Florida'' (get_or (doc_title doc) []) \<and> doc_identifier doc = Some ident
       \<and> (\<forall>n. api_items a n ident = Inl (RequestException m))"
  then have p: "\<forall>d\<in>set pre. \<not> sublist ''Florida'' (get_or (doc_title d) [])
             \<or> (\<exists>i. doc_identifier d = Some i
                    \<and> (\<forall>n. \<exists>its. api_items a n i = Inr its \<and> get_or its [] = []))"
    by blast
  from documents_loop_passes[OF p, of "doc # post" "[]" "send CFDocuments w"]
  obtain w' tr where pass: "documents_loop a (pre @ doc # post) [] (send CFDocuments w)
                       = documents_loop a (doc # post) [] w'"
    and tr: "trace w' = trace (send CFDocuments w) @ tr"
    by blast
  from h have "documents_loop a (doc # post) [] w'
                 = (Inl (RequestException m), send (CFItems ident) w')"
    by simp
  with h pass have r: "get_standards_via_api a w
          = (Inr [], print (API_Error m) (send (CFItems ident) w'))"
    by (simp add: get_standards_via_api_def)
  show "fst (get_standards_via_api a w) = Inr []"
    by (simp add: r)
  have "trace (snd (get_standards_via_api a w))
          = trace w @ Requested CFDocuments # tr
            @ [Requested (CFItems ident), Printed (API_Error m)]"
    by (simp add: r tr)
  then show "\<exists>tr. trace (snd (get_standards_via_api a w))
                  = trace w @ Requested CFDocuments # tr
                    @ [Requested (CFItems ident), Printed (API_Error m)]"
    by (rule exI)
next
  show "fst (get_standards_via_api a w) \<noteq> Inl (RequestException m')"
    by (simp add: get_standards_via_api_def split_beta split: sum.splits exn.splits)
qed

theorem api_request_failure_aborts_all_witness:
  "get_standards_via_api unreachable_api empty_world
     = (Inr [], print (API_Error ''connection refused'') (send CFDocuments empty_world))
   \<and> api_documents late_failing_api = Inr (Some (quiet_document # florida_documents))
   \<and> (\<forall>n. api_items late_failing_api n ''doc-0'' = Inr (Some []))
   \<and> (\<forall>n. api_items late_failing_api n ''doc-1'' = Inl (RequestException ''503 Server Error''))
   \<and> fst (get_standards_via_api late_failing_api empty_world) = Inr []
   \<and> trace (snd (get_standards_via_api late_failing_api empty_world))
     = [Requested CFDocuments, Requested (CFItems ''doc-0''), Requested (CFItems ''doc-1''),
        Printed (API_Error ''503 Server Error'')]"
proof -
  have u: "api_documents unreachable_api = Inl (RequestException ''connection refused'')"
    by (simp add: unreachable_api_def)
  have f: "api_documents late_failing_api = Inr (Some (quiet_document # florida_documents))"
    "\<forall>n. api_items late_failing_api n ''doc-0'' = Inr (Some [])"
    "\<forall>n. api_items late_failing_api n ''doc-1'' = Inl (RequestException ''503 Server Error'')"
    by (simp_all add: late_failing_api_def items_unless_first_def)
  have h: "api_documents late_failing_api = Inr (Some (quiet_document # florida_documents))
       \<and> get_or (Some (quiet_document # florida_documents)) []
           = [quiet_document]
             @ \<lparr>doc_title = Some ''Florida Mathematics'', doc_identifier = Some ''doc-1''\<rparr>
               # [\<lparr>doc_title = Some ''Florida Science'', doc_identifier = Some ''doc-2''\<rparr>]
       \<and> (\<forall>d\<in>set [quiet_document]. \<not> sublist ''Florida'' (get_or (doc_title d) [])
             \<or> (\<exists>i. doc_identifier d = Some i
                    \<and> (\<forall>n. \<exists>its. api_items late_failing_api n i = Inr its
                              \<and> get_or its [] = [])))
       \<and> sublist ''Florida'' (get_or (doc_title
             \<lparr>doc_title = Some ''Florida Mathematics'', doc_identifier = Some ''doc-1''\<rparr>) [])
       \<and> doc_identifier \<lparr>doc_title = Some ''Florida Mathematics'',
             doc_identifier = Some ''doc-1''\<rparr> = Some ''doc-1''
       \<and> (\<forall>n. api_items late_failing_api n ''doc-1''
                = Inl (RequestException ''503 Server Error''))"
    using f by (simp add: florida_documents_def quiet_document_def get_or_def)
  have t: "trace (snd (get_standards_via_api late_failing_api empty_world))
     = [Requested CFDocuments, Requested (CFItems ''doc-0''), Requested (CFItems ''doc-1''),
        Printed (API_Error ''503 Server Error'')]"
    by (simp add: get_standards_via_api_def late_failing_api_def florida_documents_def
          quiet_document_def items_unless_first_def parse_case_competencies_def get_or_def
          empty_world_def)
  from api_request_failure_aborts_all[THEN conjunct1, THEN mp, OF u]
    api_request_failure_aborts_all[THEN conjunct2, THEN conjunct1, THEN mp, OF h,
      THEN conjunct1] f t
  show ?thesis by simp
qed

end
